theory Spec2Isabelle
  imports Main "HOL-Library.AList" "HOL-Library.Word"
begin

unbundle bit_operations_syntax

section \<open>Python values\<close>

text \<open>
  The loader of \<^verbatim>\<open>xmind_loader.py\<close> works on what \<^verbatim>\<open>json.load\<close> returns:
  \<^verbatim>\<open>None\<close>, booleans, integers, floats, strings, lists and dictionaries with string
  keys. A dictionary is an association list in insertion order with distinct keys; a
  string is the list of its UTF-8 bytes. A float is kept as sign, mantissa and binary
  exponent, with the two infinities and NaN that \<^verbatim>\<open>json.load\<close> accepts; the loader only
  ever asks a float whether it is zero.
\<close>

datatype pyfloat = Finite bool nat int | Infinity bool | NaN

datatype pyval =
    PNone
  | PBool bool
  | PInt int
  | PFloat pyfloat
  | PStr string
  | PList "pyval list"
  | PDict "(string \<times> pyval) list"

text \<open>The exceptions the loader raises or catches; \<open>XmindLoadError\<close> carries its
  \<^verbatim>\<open>error_type\<close> tag (the message and the detail map are not modelled).\<close>

datatype py_exception =
    AttributeError
  | TypeError
  | ValueError
  | RuntimeError
  | FileNotFoundError
  | OSError
  | BadZipFile
  | XmindLoadError string

text \<open>Truth value testing, as \<^verbatim>\<open>not x\<close> and \<^verbatim>\<open>x or y\<close> use it.\<close>

fun float_nonzero :: "pyfloat \<Rightarrow> bool" where
  "float_nonzero (Finite s m e) = (m \<noteq> 0)"
| "float_nonzero (Infinity s) = True"
| "float_nonzero NaN = True"

fun truthy :: "pyval \<Rightarrow> bool" where
  "truthy PNone = False"
| "truthy (PBool b) = b"
| "truthy (PInt i) = (i \<noteq> 0)"
| "truthy (PFloat f) = float_nonzero f"
| "truthy (PStr s) = (s \<noteq> [])"
| "truthy (PList xs) = (xs \<noteq> [])"
| "truthy (PDict d) = (d \<noteq> [])"

definition py_or :: "pyval \<Rightarrow> pyval \<Rightarrow> pyval" where
  "py_or a b = (if truthy a then a else b)"

text \<open>\<^verbatim>\<open>d.get(k)\<close> and \<^verbatim>\<open>d.get(k, default)\<close> on a dictionary.\<close>

definition py_get :: "(string \<times> pyval) list \<Rightarrow> string \<Rightarrow> pyval" where
  "py_get d k = (case map_of d k of Some v \<Rightarrow> v | None \<Rightarrow> PNone)"

definition py_get_default :: "(string \<times> pyval) list \<Rightarrow> string \<Rightarrow> pyval \<Rightarrow> pyval" where
  "py_get_default d k dflt = (case map_of d k of Some v \<Rightarrow> v | None \<Rightarrow> dflt)"

section \<open>Synthesized topic identifiers\<close>

text \<open>
  \<^verbatim>\<open>str(uuid.uuid4()).replace('-', '')[:26]\<close>. The random 128-bit values come from a
  supply \<open>u\<close>: the \<open>n\<close>-th call of \<^verbatim>\<open>uuid4\<close> returns \<open>u n\<close>. \<^verbatim>\<open>str\<close> prints the 32
  hexadecimal digits in groups of 8, 4, 4, 4 and 12 separated by hyphens.
\<close>

definition hex_digit :: "nat \<Rightarrow> char" where
  "hex_digit d = ''0123456789abcdef'' ! (d mod 16)"

definition hex32 :: "128 word \<Rightarrow> string" where
  "hex32 w = map (\<lambda>i. hex_digit (unat (drop_bit (4 * (31 - i)) w AND 15))) [0..<32]"

definition str_uuid :: "128 word \<Rightarrow> string" where
  "str_uuid w =
     (let h = hex32 w
      in take 8 h @ ''-'' @ take 4 (drop 8 h) @ ''-'' @ take 4 (drop 12 h) @ ''-''
         @ take 4 (drop 16 h) @ ''-'' @ drop 20 h)"

definition remove_char :: "char \<Rightarrow> string \<Rightarrow> string" where
  "remove_char c s = filter (\<lambda>x. x \<noteq> c) s"

definition topic_id :: "(nat \<Rightarrow> 128 word) \<Rightarrow> nat \<Rightarrow> string" where
  "topic_id u n = take 26 (remove_char CHR ''-'' (str_uuid (u n)))"

section \<open>DataFormatConverter\<close>

text \<open>The dictionary \<^verbatim>\<open>_convert_topic\<close> builds, with its eight keys in source order.\<close>

definition topic_dict ::
  "pyval \<Rightarrow> pyval \<Rightarrow> pyval \<Rightarrow> pyval \<Rightarrow> pyval \<Rightarrow> pyval \<Rightarrow> pyval list \<Rightarrow> pyval list \<Rightarrow> pyval" where
  "topic_dict tid link title note label comment markers topics =
     PDict [(''id'', tid), (''link'', link), (''title'', title), (''note'', note),
            (''label'', label), (''comment'', comment), (''markers'', PList markers),
            (''topics'', PList topics)]"

definition empty_topic :: "string \<Rightarrow> pyval" where
  "empty_topic tid = topic_dict (PStr tid) PNone PNone PNone PNone PNone [] []"

text \<open>Lines 336-343: the note, falling back to \<^verbatim>\<open>notes.plain.content\<close> when falsy.\<close>

definition convert_note :: "(string \<times> pyval) list \<Rightarrow> pyval" where
  "convert_note d =
     (let note = py_get d ''note''
      in if \<not> truthy note
         then (case py_get d ''notes'' of
                 PDict notes \<Rightarrow>
                   (case py_get notes ''plain'' of
                      PDict plain \<Rightarrow> py_get plain ''content''
                    | _ \<Rightarrow> note)
               | _ \<Rightarrow> note)
         else note)"

text \<open>Lines 354-359: the body of the loop over \<^verbatim>\<open>raw_markers\<close>, and the loop, appending
  to \<^verbatim>\<open>markers\<close>.\<close>

definition marker_step :: "pyval \<Rightarrow> pyval list \<Rightarrow> pyval list" where
  "marker_step m markers =
     (case m of
        PDict md \<Rightarrow>
          (let mid = py_or (py_get md ''markerId'') (py_get md ''id'')
           in (case mid of PStr s \<Rightarrow> markers @ [mid] | _ \<Rightarrow> markers))
      | PStr s \<Rightarrow> markers @ [m]
      | _ \<Rightarrow> markers)"

fun markers_loop :: "pyval list \<Rightarrow> pyval list \<Rightarrow> pyval list" where
  "markers_loop [] markers = markers"
| "markers_loop (m # ms) markers = markers_loop ms (marker_step m markers)"

definition convert_markers :: "(string \<times> pyval) list \<Rightarrow> pyval list" where
  "convert_markers d =
     (case py_get_default d ''markers'' (PList []) of
        PList raw_markers \<Rightarrow> markers_loop raw_markers []
      | _ \<Rightarrow> [])"

text \<open>Lines 362-364: the list bound to \<^verbatim>\<open>topics\<close> before the attached children are
  appended. When the raw value is a list, \<^verbatim>\<open>topics\<close> is that very list object.\<close>

definition inline_topics :: "(string \<times> pyval) list \<Rightarrow> pyval list" where
  "inline_topics d = (case py_get d ''topics'' of PList ts \<Rightarrow> ts | _ \<Rightarrow> [])"

definition topics_is_list :: "(string \<times> pyval) list \<Rightarrow> bool" where
  "topics_is_list d = (case py_get d ''topics'' of PList ts \<Rightarrow> True | _ \<Rightarrow> False)"

text \<open>
  The raw topic after the call. \<^verbatim>\<open>topics.append\<close> writes into the raw topic's own list
  when \<^verbatim>\<open>topic_data['topics']\<close> is a list, and each attached child has been handed to
  the recursive call, which may have written into it in the same way. Values decoded by
  \<^verbatim>\<open>json.load\<close> share no list or dictionary, so the raw topic after the call is the
  raw topic with these two entries replaced.
\<close>

definition topic_after ::
  "(string \<times> pyval) list \<Rightarrow> (string \<times> pyval) list \<Rightarrow> pyval list \<Rightarrow> pyval list \<Rightarrow> pyval" where
  "topic_after d children converted attached' =
     (let d1 = (if topics_is_list d
                then AList.update ''topics'' (PList (inline_topics d @ converted)) d
                else d)
      in PDict (AList.update ''children''
                  (PDict (AList.update ''attached'' (PList attached') children)) d1))"

text \<open>
  \<^verbatim>\<open>_convert_topic\<close> (lines 317-384), with the loop of lines 370-371 as
  \<open>convert_attached\<close>. The result is the dictionary returned, the raw argument as the
  call leaves it, and the number of \<^verbatim>\<open>uuid4\<close> calls made so far. A truthy argument that
  is not a dictionary has no \<^verbatim>\<open>get\<close>: \<^verbatim>\<open>AttributeError\<close>.
\<close>

function convert_topic ::
    "(nat \<Rightarrow> 128 word) \<Rightarrow> nat \<Rightarrow> pyval \<Rightarrow> py_exception + (pyval \<times> pyval \<times> nat)"
  and convert_attached ::
    "(nat \<Rightarrow> 128 word) \<Rightarrow> nat \<Rightarrow> pyval list \<Rightarrow> py_exception + (pyval list \<times> pyval list \<times> nat)"
where
  "convert_topic u n topic_data =
     (if \<not> truthy topic_data
      then Inr (empty_topic (topic_id u n), topic_data, Suc n)
      else (case topic_data of
              PDict d \<Rightarrow>
                (let title = py_get d ''title'';
                     note = convert_note d;
                     label = py_get d ''label'';
                     comment = py_get d ''comment'';
                     markers = convert_markers d;
                     topics = inline_topics d;
                     tid = py_get_default d ''id'' (PStr '''');
                     link = py_get d ''link''
                 in (case py_get d ''children'' of
                       PDict children \<Rightarrow>
                         (case py_get children ''attached'' of
                            PList attached \<Rightarrow>
                              (case convert_attached u n attached of
                                 Inl e \<Rightarrow> Inl e
                               | Inr (converted, attached', n') \<Rightarrow>
                                   Inr (topic_dict tid link title note label comment markers
                                          (topics @ converted),
                                        topic_after d children converted attached', n'))
                          | _ \<Rightarrow>
                              Inr (topic_dict tid link title note label comment markers topics,
                                   topic_data, n))
                     | _ \<Rightarrow>
                         Inr (topic_dict tid link title note label comment markers topics,
                              topic_data, n)))
            | _ \<Rightarrow> Inl AttributeError))"
| "convert_attached u n [] = Inr ([], [], n)"
| "convert_attached u n (child # rest) =
     (case convert_topic u n child of
        Inl e \<Rightarrow> Inl e
      | Inr (r, child', n1) \<Rightarrow>
          (case convert_attached u n1 rest of
             Inl e \<Rightarrow> Inl e
           | Inr (rs, rest', n2) \<Rightarrow> Inr (r # rs, child' # rest', n2)))"
  by pat_completeness auto

termination
proof (relation "measure (\<lambda>x. case x of Inl (u, n, t) \<Rightarrow> size t
                                 | Inr (u, n, cs) \<Rightarrow> size_list size cs)", goal_cases)
  case 1
  show ?case by simp
next
  case (2 u n topic_data d title nt label comment markers topics tid link children attached)
  have lookup: "map_of kvs k = Some v \<Longrightarrow> size v < size (PDict kvs)"
    for kvs :: "(string \<times> pyval) list" and k v
    by (induction kvs) (auto split: if_splits)
  have get: "size (py_get kvs k) < size (PDict kvs)" for kvs k
    using lookup [of kvs k] by (auto simp: py_get_def split: option.splits)
  have "size (PList attached) < size (PDict children)"
    using get [of children "''attached''"] 2 by simp
  moreover have "size (PDict children) < size (PDict d)"
    using get [of d "''children''"] 2 by simp
  ultimately show ?case using 2 by simp
next
  case 3
  then show ?case by simp
next
  case 4
  then show ?case by simp
qed

declare convert_topic.simps [simp del]

text \<open>Iterating a value in a \<^verbatim>\<open>for\<close> loop. A dictionary yields its keys, a string its
  characters (one item per byte here; the loops below fail on the first string item
  whatever it holds), and \<^verbatim>\<open>None\<close>, booleans and numbers are not iterable.\<close>

fun py_iter :: "pyval \<Rightarrow> py_exception + pyval list" where
  "py_iter (PList xs) = Inr xs"
| "py_iter (PDict d) = Inr (map (\<lambda>kv. PStr (fst kv)) d)"
| "py_iter (PStr s) = Inr (map (\<lambda>c. PStr [c]) s)"
| "py_iter v = Inl TypeError"

text \<open>\<^verbatim>\<open>needle in s\<close> on strings: \<open>needle\<close> occurs as a contiguous run.\<close>

fun startswith :: "string \<Rightarrow> string \<Rightarrow> bool" where
  "startswith s [] = True"
| "startswith [] (p # ps) = False"
| "startswith (c # cs) (p # ps) = (c = p \<and> startswith cs ps)"

fun py_contains :: "string \<Rightarrow> string \<Rightarrow> bool" where
  "py_contains [] needle = (needle = [])"
| "py_contains (c # cs) needle = (startswith (c # cs) needle \<or> py_contains cs needle)"

text \<open>The dictionary built for one sheet, lines 295-299 and 308-312.\<close>

definition sheet_dict :: "pyval \<Rightarrow> pyval \<Rightarrow> pyval \<Rightarrow> pyval" where
  "sheet_dict sid title topic = PDict [(''id'', sid), (''title'', title), (''topic'', topic)]"

text \<open>Where the raw sheet keeps the topic that was handed to \<^verbatim>\<open>_convert_topic\<close>: under
  \<^verbatim>\<open>'topic'\<close>, else (array root only) under \<^verbatim>\<open>'rootTopic'\<close>; the default \<^verbatim>\<open>{}\<close> is a
  fresh dictionary and belongs to no sheet.\<close>

definition sheet_after :: "bool \<Rightarrow> (string \<times> pyval) list \<Rightarrow> pyval \<Rightarrow> pyval" where
  "sheet_after with_root d topic' =
     (if map_of d ''topic'' \<noteq> None then PDict (AList.update ''topic'' topic' d)
      else if with_root \<and> map_of d ''rootTopic'' \<noteq> None
           then PDict (AList.update ''rootTopic'' topic' d)
      else PDict d)"

text \<open>Lines 293-300: the loop over an array root. Each result is the list of converted
  sheets, the raw sheets as the loop leaves them, and the \<^verbatim>\<open>uuid4\<close> count.\<close>

fun convert_sheets_array ::
  "(nat \<Rightarrow> 128 word) \<Rightarrow> nat \<Rightarrow> pyval list \<Rightarrow> py_exception + (pyval list \<times> pyval list \<times> nat)" where
  "convert_sheets_array u n [] = Inr ([], [], n)"
| "convert_sheets_array u n (sheet # rest) =
     (case sheet of
        PDict d \<Rightarrow>
          (let sid = py_get_default d ''id'' (PStr '''');
               title = py_get d ''title'';
               raw = py_get_default d ''topic'' (py_get_default d ''rootTopic'' (PDict []))
           in (case convert_topic u n raw of
                 Inl e \<Rightarrow> Inl e
               | Inr (topic, raw', n1) \<Rightarrow>
                   (case convert_sheets_array u n1 rest of
                      Inl e \<Rightarrow> Inl e
                    | Inr (rs, rest', n2) \<Rightarrow>
                        Inr (sheet_dict sid title topic # rs, sheet_after True d raw' # rest', n2))))
      | _ \<Rightarrow> Inl AttributeError)"

text \<open>Lines 307-313: the loop over \<^verbatim>\<open>content_data['sheets']\<close> of an object root.\<close>

fun convert_sheets_object ::
  "(nat \<Rightarrow> 128 word) \<Rightarrow> nat \<Rightarrow> pyval list \<Rightarrow> py_exception + (pyval list \<times> pyval list \<times> nat)" where
  "convert_sheets_object u n [] = Inr ([], [], n)"
| "convert_sheets_object u n (sheet # rest) =
     (case sheet of
        PDict d \<Rightarrow>
          (let sid = py_get_default d ''id'' (PStr '''');
               title = py_get d ''title'';
               raw = py_get_default d ''topic'' (PDict [])
           in (case convert_topic u n raw of
                 Inl e \<Rightarrow> Inl e
               | Inr (topic, raw', n1) \<Rightarrow>
                   (case convert_sheets_object u n1 rest of
                      Inl e \<Rightarrow> Inl e
                    | Inr (rs, rest', n2) \<Rightarrow>
                        Inr (sheet_dict sid title topic # rs, sheet_after False d raw' # rest', n2))))
      | _ \<Rightarrow> Inl AttributeError)"

text \<open>\<^verbatim>\<open>convert_to_xmind_format\<close> (lines 284-315): the converted document, the raw content
  as the call leaves it, and the \<^verbatim>\<open>uuid4\<close> count. Only a list value of \<^verbatim>\<open>'sheets'\<close> can
  hold dictionaries, so only then can the raw content change.\<close>

definition convert_to_xmind_format ::
  "(nat \<Rightarrow> 128 word) \<Rightarrow> nat \<Rightarrow> pyval \<Rightarrow> py_exception + (pyval \<times> pyval \<times> nat)" where
  "convert_to_xmind_format u n content_data =
     (if \<not> truthy content_data then Inr (PList [], content_data, n)
      else (case content_data of
              PList sheets \<Rightarrow>
                (case convert_sheets_array u n sheets of
                   Inl e \<Rightarrow> Inl e
                 | Inr (rs, sheets', n') \<Rightarrow> Inr (PList rs, PList sheets', n'))
            | PDict d \<Rightarrow>
                (case map_of d ''sheets'' of
                   None \<Rightarrow> Inr (PList [], content_data, n)
                 | Some sv \<Rightarrow>
                     (case py_iter sv of
                        Inl e \<Rightarrow> Inl e
                      | Inr sheets \<Rightarrow>
                          (case convert_sheets_object u n sheets of
                             Inl e \<Rightarrow> Inl e
                           | Inr (rs, sheets', n') \<Rightarrow>
                               Inr (PList rs,
                                    (case sv of
                                       PList xs \<Rightarrow> PDict (AList.update ''sheets'' (PList sheets') d)
                                     | _ \<Rightarrow> content_data),
                                    n'))))
            | PStr s \<Rightarrow>
                (if \<not> py_contains s ''sheets'' then Inr (PList [], content_data, n)
                 else Inl TypeError)
            | _ \<Rightarrow> Inl TypeError))"

section \<open>The module's cache\<close>

text \<open>A cache entry is the dictionary \<^verbatim>\<open>{'data': ..., 'timestamp': ...}\<close>; a timestamp is
  a reading of \<^verbatim>\<open>time.time()\<close>, of which only the order matters, taken here as an integer
  number of clock ticks.\<close>

record cache_entry =
  data :: pyval
  timestamp :: int

text \<open>What \<^verbatim>\<open>json.load\<close> makes of a file: \<^verbatim>\<open>UnicodeDecodeError\<close>, \<^verbatim>\<open>JSONDecodeError\<close>, or the
  decoded value.\<close>

datatype json_file = NotUtf8 | NotJson | Json pyval

text \<open>A zip archive as \<^verbatim>\<open>zipfile\<close> shows it: the first member that fails its CRC check,
  if any, and the members in archive order, each under the relative path it extracts to.\<close>

record zip_archive =
  testzip :: "string option"
  members :: "(string \<times> json_file) list"

text \<open>A file on disk: the modification time as \<^verbatim>\<open>str\<close> prints the float, the size in
  bytes, and the archive \<^verbatim>\<open>zipfile.ZipFile\<close> opens (\<open>None\<close>: \<^verbatim>\<open>BadZipFile\<close>).\<close>

record disk_file =
  st_mtime :: string
  st_size :: nat
  archive :: "zip_archive option"

type_synonym filesystem = "string \<Rightarrow> disk_file option"

text \<open>The mutable state: the module globals \<^verbatim>\<open>_file_cache\<close> (a dictionary in insertion
  order) and \<^verbatim>\<open>_cache_max_size\<close>, and the temporary directories that exist, each with the
  files in it.\<close>

record world =
  file_cache :: "(string \<times> cache_entry) list"
  cache_max_size :: nat
  temp_dirs :: "string \<Rightarrow> (string \<Rightarrow> json_file option) option"

definition initial_world :: world where
  "initial_world = \<lparr>file_cache = [], cache_max_size = 100, temp_dirs = Map.empty\<rparr>"

text \<open>What the surroundings answer during one call of \<^verbatim>\<open>load\<close>: the clock at the cache
  insertion, the name \<^verbatim>\<open>tempfile.mkdtemp\<close> returns (\<open>None\<close>: it raises \<^verbatim>\<open>OSError\<close>),
  whether \<^verbatim>\<open>extractall\<close> and \<^verbatim>\<open>shutil.rmtree\<close> succeed, and the \<^verbatim>\<open>uuid4\<close> supply.\<close>

record environment =
  time_now :: int
  mkdtemp :: "string option"
  extractall_ok :: bool
  rmtree_ok :: bool
  uuid4 :: "nat \<Rightarrow> 128 word"

fun str_nat :: "nat \<Rightarrow> string" where
  "str_nat n =
     (if n < 10 then [''0123456789'' ! n]
      else str_nat (n div 10) @ [''0123456789'' ! (n mod 10)])"

declare str_nat.simps [simp del]

text \<open>\<^verbatim>\<open>_get_file_cache_key\<close> (lines 24-30); \<^verbatim>\<open>os.stat\<close> fails on a path that does not
  exist.\<close>

definition get_file_cache_key :: "filesystem \<Rightarrow> string \<Rightarrow> string" where
  "get_file_cache_key fs file_path =
     (case fs file_path of
        Some stat \<Rightarrow> file_path @ ''_'' @ st_mtime stat @ ''_'' @ str_nat (st_size stat)
      | None \<Rightarrow> file_path)"

text \<open>\<^verbatim>\<open>_get_cached_data\<close> (lines 33-36): a read of the dictionary and nothing else.\<close>

definition get_cached_data :: "filesystem \<Rightarrow> world \<Rightarrow> string \<Rightarrow> cache_entry option" where
  "get_cached_data fs w file_path = map_of (file_cache w) (get_file_cache_key fs file_path)"

text \<open>\<^verbatim>\<open>min(keys, key=f)\<close>: the first key, in iteration order, at which \<open>f\<close> is least.\<close>

fun py_min_by :: "('a \<Rightarrow> int) \<Rightarrow> 'a \<Rightarrow> 'a list \<Rightarrow> 'a" where
  "py_min_by f best [] = best"
| "py_min_by f best (x # xs) = py_min_by f (if f x < f best then x else best) xs"

definition entry_timestamp :: "(string \<times> cache_entry) list \<Rightarrow> string \<Rightarrow> int" where
  "entry_timestamp c k = (case map_of c k of Some e \<Rightarrow> timestamp e | None \<Rightarrow> 0)"

text \<open>\<^verbatim>\<open>_set_cached_data\<close> (lines 39-52). \<^verbatim>\<open>min\<close> of no keys raises \<^verbatim>\<open>ValueError\<close>, which
  takes a capacity of zero.\<close>

definition set_cached_data ::
  "filesystem \<Rightarrow> int \<Rightarrow> string \<Rightarrow> pyval \<Rightarrow> world \<Rightarrow> py_exception + world" where
  "set_cached_data fs now file_path d w =
     (let c = file_cache w;
          cache_key = get_file_cache_key fs file_path;
          entry = \<lparr>data = d, timestamp = now\<rparr>
      in if length c \<ge> cache_max_size w
         then (case map fst c of
                 [] \<Rightarrow> Inl ValueError
               | k # ks \<Rightarrow>
                   (let oldest_key = py_min_by (entry_timestamp c) k ks
                    in Inr (w\<lparr>file_cache :=
                                AList.update cache_key entry (AList.delete oldest_key c)\<rparr>)))
         else Inr (w\<lparr>file_cache := AList.update cache_key entry c\<rparr>))"

definition clear_cache :: "world \<Rightarrow> world" where
  "clear_cache w = w\<lparr>file_cache := []\<rparr>"

section \<open>validate_xmind_file\<close>

text \<open>\<^verbatim>\<open>str.lower\<close> on the ASCII letters, and \<^verbatim>\<open>str.endswith\<close>. (Outside ASCII \<^verbatim>\<open>lower\<close>
  maps no character to one of \<^verbatim>\<open>.xmind\<close>, so the test of line 191 is the same.)\<close>

definition lower_char :: "char \<Rightarrow> char" where
  "lower_char c =
     (let k = (of_char c :: nat) in if 65 \<le> k \<and> k \<le> 90 then char_of (k + 32) else c)"

definition py_lower :: "string \<Rightarrow> string" where
  "py_lower s = map lower_char s"

definition endswith :: "string \<Rightarrow> string \<Rightarrow> bool" where
  "endswith s suffix =
     (length suffix \<le> length s \<and> drop (length s - length suffix) s = suffix)"

text \<open>The body of the \<^verbatim>\<open>try\<close> of lines 185-209, one exception per check.\<close>

definition validate_checks :: "filesystem \<Rightarrow> string \<Rightarrow> py_exception + unit" where
  "validate_checks fs xmind_file =
     (case fs xmind_file of
        None \<Rightarrow> Inl FileNotFoundError
      | Some f \<Rightarrow>
          if \<not> endswith (py_lower xmind_file) ''.xmind'' then Inl ValueError
          else if st_size f = 0 then Inl ValueError
          else (case archive f of
                  None \<Rightarrow> Inl BadZipFile
                | Some z \<Rightarrow>
                    if testzip z \<noteq> None then Inl BadZipFile
                    else if ''content.json'' \<notin> set (map fst (members z)) then Inl ValueError
                    else Inr ()))"

text \<open>\<^verbatim>\<open>validate_xmind_file\<close> (lines 183-213): \<^verbatim>\<open>except Exception\<close> turns every failure
  into \<^verbatim>\<open>False\<close>.\<close>

definition validate_xmind_file :: "filesystem \<Rightarrow> string \<Rightarrow> bool" where
  "validate_xmind_file fs xmind_file =
     (case validate_checks fs xmind_file of Inr _ \<Rightarrow> True | Inl e \<Rightarrow> False)"

section \<open>ContentJsonParser\<close>

text \<open>\<^verbatim>\<open>_validate_content_structure\<close> (lines 248-267); every failure is a \<^verbatim>\<open>ValueError\<close>.\<close>

definition validate_content_structure :: "pyval \<Rightarrow> py_exception + unit" where
  "validate_content_structure content_data =
     (case content_data of
        PList xs \<Rightarrow> if xs = [] then Inl ValueError else Inr ()
      | PDict d \<Rightarrow>
          (case map_of d ''sheets'' of
             None \<Rightarrow> Inl ValueError
           | Some (PList sheets) \<Rightarrow> if sheets = [] then Inl ValueError else Inr ()
           | Some _ \<Rightarrow> Inl ValueError)
      | _ \<Rightarrow> Inl ValueError)"

text \<open>\<^verbatim>\<open>_load_additional_data\<close> (lines 269-278): the metadata, \<^verbatim>\<open>{}\<close> when the file is
  absent or cannot be read. It raises nothing.\<close>

definition load_additional_data :: "(string \<Rightarrow> json_file option) \<Rightarrow> pyval" where
  "load_additional_data files =
     (case files ''metadata.json'' of Some (Json v) \<Rightarrow> v | _ \<Rightarrow> PDict [])"

text \<open>\<^verbatim>\<open>parse_content_json\<close> (lines 224-246). A \<^verbatim>\<open>JSONDecodeError\<close> becomes \<^verbatim>\<open>ValueError\<close>;
  everything else raised inside the \<^verbatim>\<open>try\<close>, the \<^verbatim>\<open>ValueError\<close> of the structure check
  included, becomes \<^verbatim>\<open>RuntimeError\<close>. The metadata stays on the parser object, which the
  loader drops.\<close>

definition parse_content_json :: "world \<Rightarrow> string \<Rightarrow> py_exception + pyval" where
  "parse_content_json w extract_dir =
     (case temp_dirs w extract_dir of
        None \<Rightarrow> Inl FileNotFoundError
      | Some files \<Rightarrow>
          (case files ''content.json'' of
             None \<Rightarrow> Inl FileNotFoundError
           | Some NotJson \<Rightarrow> Inl ValueError
           | Some NotUtf8 \<Rightarrow> Inl RuntimeError
           | Some (Json content_data) \<Rightarrow>
               (case validate_content_structure content_data of
                  Inl e \<Rightarrow> Inl RuntimeError
                | Inr _ \<Rightarrow>
                    (let metadata = load_additional_data files in Inr content_data))))"

section \<open>XmindFileLoader\<close>

text \<open>The loader object. Its debugger is the disabled one that the module's \<^verbatim>\<open>load\<close>
  constructs (\<^verbatim>\<open>XmindFileLoader(xmind_file)\<close>), each of whose methods returns at once.\<close>

record loader =
  xmind_file :: string
  temp_dir :: "string option"
  content_data :: pyval

definition new_loader :: "string \<Rightarrow> loader" where
  "new_loader path = \<lparr>xmind_file = path, temp_dir = None, content_data = PNone\<rparr>"

text \<open>\<^verbatim>\<open>_extract_xmind_file\<close> (lines 463-480). The directory exists from \<^verbatim>\<open>mkdtemp\<close> on;
  \<^verbatim>\<open>extractall\<close> writes the members in order, a later one over an earlier one of the same
  name. What a failed \<^verbatim>\<open>extractall\<close> had written is never read.\<close>

definition extract_xmind_file ::
  "filesystem \<Rightarrow> environment \<Rightarrow> loader \<Rightarrow> world \<Rightarrow> (py_exception + string) \<times> loader \<times> world" where
  "extract_xmind_file fs env l w =
     (case mkdtemp env of
        None \<Rightarrow> (Inl (XmindLoadError ''EXTRACTION_FAILED''), l, w)
      | Some dir \<Rightarrow>
          (let l1 = l\<lparr>temp_dir := Some dir\<rparr>;
               w1 = w\<lparr>temp_dirs := (temp_dirs w)(dir \<mapsto> Map.empty)\<rparr>
           in (case fs (xmind_file l) of
                 None \<Rightarrow> (Inl (XmindLoadError ''EXTRACTION_FAILED''), l1, w1)
               | Some f \<Rightarrow>
                   (case archive f of
                      None \<Rightarrow> (Inl (XmindLoadError ''BAD_ZIP_FILE''), l1, w1)
                    | Some z \<Rightarrow>
                        if extractall_ok env
                        then (Inr dir, l1,
                              w\<lparr>temp_dirs := (temp_dirs w)(dir \<mapsto> map_of (rev (members z)))\<rparr>)
                        else (Inl (XmindLoadError ''EXTRACTION_FAILED''), l1, w1)))))"

text \<open>\<^verbatim>\<open>_cleanup\<close> (lines 490-497): a failure of \<^verbatim>\<open>rmtree\<close> is logged and the directory
  stays.\<close>

definition cleanup :: "environment \<Rightarrow> loader \<Rightarrow> world \<Rightarrow> world" where
  "cleanup env l w =
     (case temp_dir l of
        None \<Rightarrow> w
      | Some dir \<Rightarrow>
          if dir \<noteq> [] \<and> temp_dirs w dir \<noteq> None
          then (if rmtree_ok env then w\<lparr>temp_dirs := (temp_dirs w)(dir := None)\<rparr> else w)
          else w)"

text \<open>The \<^verbatim>\<open>try\<close> block of \<^verbatim>\<open>load\<close> (lines 421-452): the outcome, and the loader and the
  world as the block leaves them, also when it raises.\<close>

definition load_try ::
  "filesystem \<Rightarrow> environment \<Rightarrow> loader \<Rightarrow> world \<Rightarrow> (py_exception + pyval) \<times> loader \<times> world" where
  "load_try fs env l w =
     (if \<not> validate_xmind_file fs (xmind_file l)
      then (Inl (XmindLoadError ''FILE_VALIDATION''), l, w)
      else (case extract_xmind_file fs env l w of
              (Inl e, l1, w1) \<Rightarrow> (Inl e, l1, w1)
            | (Inr extract_dir, l1, w1) \<Rightarrow>
                (case parse_content_json w1 extract_dir of
                   Inl e \<Rightarrow> (Inl e, l1, w1)
                 | Inr parsed \<Rightarrow>
                     (case convert_to_xmind_format (uuid4 env) 0 parsed of
                        Inl e \<Rightarrow> (Inl e, l1, w1)
                      | Inr (doc, parsed', n) \<Rightarrow>
                          (let l2 = l1\<lparr>content_data := doc\<rparr>
                           in (case set_cached_data fs (time_now env) (xmind_file l2) doc w1 of
                                 Inl e \<Rightarrow> (Inl e, l2, w1)
                               | Inr w2 \<Rightarrow> (Inr doc, l2, cleanup env l2 w2)))))))"

text \<open>\<^verbatim>\<open>XmindFileLoader.load\<close> (lines 407-461). A cache entry is a dictionary of two keys
  and so always true. The two \<^verbatim>\<open>except\<close> clauses call \<^verbatim>\<open>_cleanup\<close>; the first re-raises an
  \<^verbatim>\<open>XmindLoadError\<close>, the second wraps anything else as \<^verbatim>\<open>LOAD_FAILED\<close>.\<close>

definition load ::
  "filesystem \<Rightarrow> environment \<Rightarrow> loader \<Rightarrow> world \<Rightarrow> (py_exception + pyval) \<times> loader \<times> world" where
  "load fs env l w =
     (case get_cached_data fs w (xmind_file l) of
        Some cached_data \<Rightarrow> (Inr (data cached_data), l\<lparr>content_data := data cached_data\<rparr>, w)
      | None \<Rightarrow>
          (case load_try fs env l w of
             (Inr doc, l', w') \<Rightarrow> (Inr doc, l', w')
           | (Inl (XmindLoadError t), l', w') \<Rightarrow> (Inl (XmindLoadError t), l', cleanup env l' w')
           | (Inl e, l', w') \<Rightarrow> (Inl (XmindLoadError ''LOAD_FAILED''), l', cleanup env l' w')))"


section \<open>XmindWorkbookWrapper\<close>


record workbook_wrapper =
  wrapper_data :: pyval
  wrapper_debug_info :: pyval

definition wrapper_getData :: "workbook_wrapper \<Rightarrow> pyval" where
  "wrapper_getData wb = wrapper_data wb"


text \<open>The module's \<^verbatim>\<open>load\<close> (lines 525-549): a new loader, its result wrapped, any
  exception passed on.\<close>

definition xmind_load ::
  "filesystem \<Rightarrow> environment \<Rightarrow> string \<Rightarrow> world \<Rightarrow> (py_exception + workbook_wrapper) \<times> world" where
  "xmind_load fs env path w =
     (case load fs env (new_loader path) w of
        (Inr result, l, w') \<Rightarrow> (Inr \<lparr>wrapper_data = result, wrapper_debug_info = PDict []\<rparr>, w')
      | (Inl e, l, w') \<Rightarrow> (Inl e, w'))"

section \<open>Reading results, and the spec's wording\<close>

text \<open>\<^verbatim>\<open>v[k]\<close> on a returned dictionary, used to state what its fields hold.\<close>

definition topic_field :: "pyval \<Rightarrow> string \<Rightarrow> pyval" where
  "topic_field v k = (case v of PDict d \<Rightarrow> py_get d k | _ \<Rightarrow> PNone)"

definition result_of :: "py_exception + (pyval \<times> pyval \<times> nat) \<Rightarrow> pyval" where
  "result_of x = (case x of Inr (r, t', n) \<Rightarrow> r | Inl e \<Rightarrow> PNone)"

text \<open>
  Marker normalization as the spec words it: a plain string is kept as it is; a
  structured object contributes its identifier field, \<^verbatim>\<open>markerId\<close> when that holds a true
  value and \<^verbatim>\<open>id\<close> otherwise, provided the identifier is a string; every other entry is
  dropped; the survivors keep their order.
\<close>

definition identifier_field :: "(string \<times> pyval) list \<Rightarrow> pyval" where
  "identifier_field md =
     (if truthy (py_get md ''markerId'') then py_get md ''markerId'' else py_get md ''id'')"

fun spec_marker :: "pyval \<Rightarrow> string option" where
  "spec_marker (PStr s) = Some s"
| "spec_marker (PDict md) = (case identifier_field md of PStr s \<Rightarrow> Some s | _ \<Rightarrow> None)"
| "spec_marker v = None"

definition raw_markers :: "pyval \<Rightarrow> pyval list" where
  "raw_markers t =
     (case t of
        PDict d \<Rightarrow> (case map_of d ''markers'' of Some (PList ms) \<Rightarrow> ms | _ \<Rightarrow> [])
      | _ \<Rightarrow> [])"

definition spec_markers :: "pyval \<Rightarrow> pyval list" where
  "spec_markers t = map PStr (List.map_filter spec_marker (raw_markers t))"

subsection \<open>Concrete inputs\<close>

text \<open>A topic whose markers mix strings, objects and other entries.\<close>

definition mixed_markers :: pyval where
  "mixed_markers = PDict [(''id'', PStr ''t''), (''markers'', PList
      [PStr ''star'', PDict [(''markerId'', PStr ''flag-red''), (''id'', PStr ''x'')],
       PInt 7, PDict [(''id'', PStr ''task-done'')],
       PDict [(''markerId'', PInt 3), (''id'', PStr ''y'')], PNone, PStr ''star''])]"

text \<open>A topic with an inline child list \<^verbatim>\<open>[A]\<close> and an attached list \<^verbatim>\<open>[C]\<close>, and the
  same topic with the normalized \<^verbatim>\<open>C\<close> appended to its inline list.\<close>

definition legacy_A :: pyval where
  "legacy_A = PDict [(''id'', PStr ''a'')]"

definition attached_C :: pyval where
  "attached_C = PDict [(''id'', PStr ''c'')]"

definition both_forms :: pyval where
  "both_forms = PDict [(''id'', PStr ''t''), (''topics'', PList [legacy_A]),
                       (''children'', PDict [(''attached'', PList [attached_C])])]"

definition both_forms_after :: pyval where
  "both_forms_after = PDict [(''id'', PStr ''t''),
      (''topics'', PList [legacy_A, topic_dict (PStr ''c'') PNone PNone PNone PNone PNone [] []]),
      (''children'', PDict [(''attached'', PList [attached_C])])]"

subsection \<open>Sequences of cache operations\<close>

text \<open>A run of lookups and insertions on the module's cache. A lookup is
  \<^verbatim>\<open>_get_cached_data\<close>, which reads the dictionary and writes nothing; an insertion is
  \<^verbatim>\<open>_set_cached_data\<close> at the given clock reading. \<open>inserted\<close> lists the entries the
  insertions of a run write, in order, and \<open>newest N\<close> keeps the last \<open>N\<close> of a list.\<close>

datatype cache_op = Lookup string | Insert string pyval int

fun cache_step :: "filesystem \<Rightarrow> cache_op \<Rightarrow> world \<Rightarrow> py_exception + world" where
  "cache_step fs (Lookup p) w = (case get_cached_data fs w p of _ \<Rightarrow> Inr w)"
| "cache_step fs (Insert p d now) w = set_cached_data fs now p d w"

fun run_ops :: "filesystem \<Rightarrow> cache_op list \<Rightarrow> world \<Rightarrow> py_exception + world" where
  "run_ops fs [] w = Inr w"
| "run_ops fs (op # ops) w =
     (case cache_step fs op w of Inl e \<Rightarrow> Inl e | Inr w' \<Rightarrow> run_ops fs ops w')"

fun inserted :: "filesystem \<Rightarrow> cache_op list \<Rightarrow> (string \<times> cache_entry) list" where
  "inserted fs [] = []"
| "inserted fs (Lookup p # ops) = inserted fs ops"
| "inserted fs (Insert p d now # ops) =
     (get_file_cache_key fs p, \<lparr>data = d, timestamp = now\<rparr>) # inserted fs ops"

definition newest :: "nat \<Rightarrow> 'a list \<Rightarrow> 'a list" where
  "newest N xs = drop (length xs - N) xs"

text \<open>No file exists (so a fingerprint is the path itself); an empty cache of capacity
  two; a full cache of capacity two whose second entry is the older one; and a run of
  three insertions with lookups of the first key in between.\<close>

definition no_files :: filesystem where
  "no_files = (\<lambda>p. None)"

definition small_world :: world where
  "small_world = \<lparr>file_cache = [], cache_max_size = 2, temp_dirs = Map.empty\<rparr>"

definition full_world :: world where
  "full_world = \<lparr>file_cache = [(''a.xmind'', \<lparr>data = PList [], timestamp = 5\<rparr>),
                                 (''b.xmind'', \<lparr>data = PList [], timestamp = 4\<rparr>)],
                  cache_max_size = 2, temp_dirs = Map.empty\<rparr>"

definition three_inserts :: "cache_op list" where
  "three_inserts = [Insert ''a.xmind'' (PList []) 1, Lookup ''a.xmind'',
                    Insert ''b.xmind'' (PList []) 2, Lookup ''a.xmind'',
                    Insert ''c.xmind'' (PList []) 2]"


text \<open>What the surroundings answer in the examples: the clock reads 1, \<^verbatim>\<open>mkdtemp\<close> returns
  a name, \<^verbatim>\<open>extractall\<close> and \<^verbatim>\<open>rmtree\<close> succeed, and every \<^verbatim>\<open>uuid4\<close> is zero.\<close>

definition env0 :: environment where
  "env0 = \<lparr>time_now = 1, mkdtemp = Some ''/tmp/xmind_extract_0'', extractall_ok = True,
           rmtree_ok = True, uuid4 = (\<lambda>n. 0)\<rparr>"

text \<open>A disk that holds one file, \<^verbatim>\<open>a.xmind\<close>: an archive whose only member is
  \<^verbatim>\<open>content.json\<close> with the given content, or a file of size zero.\<close>

definition archive_of :: "json_file \<Rightarrow> disk_file" where
  "archive_of payload = \<lparr>st_mtime = ''1.5'', st_size = 120,
      archive = Some \<lparr>testzip = None, members = [(''content.json'', payload)]\<rparr>\<rparr>"

definition empty_file :: disk_file where
  "empty_file = \<lparr>st_mtime = ''1.5'', st_size = 0, archive = None\<rparr>"

definition disk_with :: "disk_file \<Rightarrow> filesystem" where
  "disk_with f = (\<lambda>p. if p = ''a.xmind'' then Some f else None)"

text \<open>An object root with one sheet whose topic has a title and no id, and the document
  the loader returns for it.\<close>

definition no_id_content :: pyval where
  "no_id_content = PDict [(''sheets'', PList [PDict [(''id'', PStr ''s''),
       (''topic'', PDict [(''title'', PStr ''T'')])]])]"

definition no_id_document :: pyval where
  "no_id_document = PList [sheet_dict (PStr ''s'') PNone
       (topic_dict (PStr '''') PNone (PStr ''T'') PNone PNone PNone [] [])]"

text \<open>A sheet that keeps its topic under \<^verbatim>\<open>rootTopic\<close> only.\<close>

definition root_topic_sheet :: pyval where
  "root_topic_sheet = PDict [(''id'', PStr ''s1''), (''title'', PStr ''Sheet''),
       (''rootTopic'', PDict [(''id'', PStr ''r''), (''title'', PStr ''Root'')])]"





section \<open>Properties of the synthesized identifier\<close>

lemma hex_digit_not_hyphen: "hex_digit d \<noteq> CHR ''-''"
proof -
  have "hex_digit d \<in> set ''0123456789abcdef''"
    unfolding hex_digit_def by (rule nth_mem) simp
  then show ?thesis by auto
qed

lemma length_hex32: "length (hex32 w) = 32"
  by (simp add: hex32_def)

lemma hex32_no_hyphen: "c \<in> set (hex32 w) \<Longrightarrow> c \<noteq> CHR ''-''"
  by (auto simp: hex32_def hex_digit_not_hyphen)

lemma remove_hyphen_hex: "set s \<subseteq> set (hex32 w) \<Longrightarrow> remove_char CHR ''-'' s = s"
  unfolding remove_char_def
  by (rule filter_True) (use hex32_no_hyphen in blast)

lemma remove_char_append: "remove_char c (a @ b) = remove_char c a @ remove_char c b"
  by (simp add: remove_char_def)

lemma topic_id_hex: "topic_id u n = take 26 (hex32 (u n))"
proof -
  let ?h = "hex32 (u n)"
  have p1: "remove_char CHR ''-'' (take 8 ?h) = take 8 ?h"
    by (rule remove_hyphen_hex [where w = "u n"]) (rule set_take_subset)
  have p2: "remove_char CHR ''-'' (take k (drop j ?h)) = take k (drop j ?h)" for k j
    by (rule remove_hyphen_hex [where w = "u n"])
       (meson set_take_subset set_drop_subset subset_trans)
  have p3: "remove_char CHR ''-'' (drop 20 ?h) = drop 20 ?h"
    by (rule remove_hyphen_hex [where w = "u n"]) (rule set_drop_subset)
  have hy: "remove_char CHR ''-'' ''-'' = []" by (simp add: remove_char_def)
  have "remove_char CHR ''-'' (str_uuid (u n)) =
        take 8 ?h @ take 4 (drop 8 ?h) @ take 4 (drop 12 ?h) @ take 4 (drop 16 ?h) @ drop 20 ?h"
    unfolding str_uuid_def Let_def remove_char_append p1 p2 p3 hy by simp
  also have "\<dots> = ?h"
  proof -
    have a: "take 4 (drop 16 ?h) @ drop 20 ?h = drop 16 ?h"
      using append_take_drop_id [of 4 "drop 16 ?h"] by simp
    have b: "take 4 (drop 12 ?h) @ drop 16 ?h = drop 12 ?h"
      using append_take_drop_id [of 4 "drop 12 ?h"] by simp
    have c: "take 4 (drop 8 ?h) @ drop 12 ?h = drop 8 ?h"
      using append_take_drop_id [of 4 "drop 8 ?h"] by simp
    show ?thesis unfolding a b c by simp
  qed
  finally show ?thesis by (simp add: topic_id_def)
qed

lemma length_topic_id: "length (topic_id u n) = 26"
  by (simp add: topic_id_hex length_hex32)

section \<open>Properties of the converter\<close>

lemma convert_topic_falsy:
  "\<not> truthy t \<Longrightarrow> convert_topic u n t = Inr (empty_topic (topic_id u n), t, Suc n)"
  by (simp add: convert_topic.simps(1))

lemma convert_topic_not_dict:
  "truthy t \<Longrightarrow> \<forall>d. t \<noteq> PDict d \<Longrightarrow> convert_topic u n t = Inl AttributeError"
  by (cases t) (simp_all add: convert_topic.simps(1))

lemma convert_topic_dict:
  assumes "convert_topic u n (PDict d) = Inr (r, t', n')" and "d \<noteq> []"
  shows "\<exists>topics. r = topic_dict (py_get_default d ''id'' (PStr '''')) (py_get d ''link'')
            (py_get d ''title'') (convert_note d) (py_get d ''label'') (py_get d ''comment'')
            (convert_markers d) topics"
  using assms
  by (auto simp: convert_topic.simps(1) Let_def split: pyval.splits sum.splits)

lemma topic_field_topic_dict:
  "topic_field (topic_dict i l t n lb c ms ts) ''id'' = i"
  "topic_field (topic_dict i l t n lb c ms ts) ''markers'' = PList ms"
  "topic_field (topic_dict i l t n lb c ms ts) ''topics'' = PList ts"
  by (simp_all add: topic_field_def topic_dict_def py_get_def)

subsection \<open>Markers\<close>

lemma marker_step_acc: "marker_step m acc = acc @ marker_step m []"
  by (simp add: marker_step_def Let_def split: pyval.splits)

lemma marker_step_spec:
  "marker_step m [] = (case spec_marker m of Some s \<Rightarrow> [PStr s] | None \<Rightarrow> [])"
  by (cases m)
     (auto simp: marker_step_def identifier_field_def py_or_def Let_def split: pyval.splits)

lemma markers_loop_spec:
  "markers_loop ms acc = acc @ map PStr (List.map_filter spec_marker ms)"
proof (induction ms arbitrary: acc)
  case Nil
  show ?case by simp
next
  case (Cons m ms)
  have "markers_loop (m # ms) acc = marker_step m acc @ map PStr (List.map_filter spec_marker ms)"
    using Cons.IH [of "marker_step m acc"] by simp
  also have "marker_step m acc = acc @ (case spec_marker m of Some s \<Rightarrow> [PStr s] | None \<Rightarrow> [])"
    using marker_step_acc [of m acc] marker_step_spec [of m] by simp
  finally show ?case
    by (simp split: option.splits)
qed

lemma convert_markers_spec: "convert_markers d = spec_markers (PDict d)"
  by (auto simp: convert_markers_def spec_markers_def raw_markers_def py_get_default_def
        markers_loop_spec split: option.splits pyval.splits)

lemma spec_marker_prefers_markerId:
  "spec_marker (PDict [(''markerId'', PStr (c # cs)), (''id'', v)]) = Some (c # cs)"
  "spec_marker (PDict [(''id'', PStr s)]) = Some s"
  by (simp_all add: identifier_field_def py_get_def)

text \<open>
  C8. For every raw topic that the converter accepts, the \<^verbatim>\<open>markers\<close> of the result are
  the raw marker entries with plain strings kept as they are, objects replaced by their
  identifier field (\<^verbatim>\<open>markerId\<close> before \<^verbatim>\<open>id\<close>), every other entry dropped, and the
  order of the surviving entries unchanged.
\<close>

theorem markers_normalized:
  assumes "convert_topic u n t = Inr (r, t', n')"
  shows "topic_field r ''markers'' = PList (spec_markers t)"
proof (cases "truthy t")
  case False
  then have "r = empty_topic (topic_id u n)"
    using assms by (simp add: convert_topic_falsy)
  moreover have "raw_markers t = []"
    using False by (cases t) (simp_all add: raw_markers_def)
  ultimately show ?thesis
    by (simp add: empty_topic_def topic_field_topic_dict spec_markers_def)
next
  case True
  then obtain d where t: "t = PDict d" and d: "d \<noteq> []"
    using assms convert_topic_not_dict [of t u n] by (cases t) auto
  from convert_topic_dict [OF assms [unfolded t] d] convert_markers_spec [of d]
  show ?thesis by (auto simp: t topic_field_topic_dict)
qed

theorem markers_normalized_witness:
  "convert_topic (\<lambda>n. 0) 0 mixed_markers =
     Inr (topic_dict (PStr ''t'') PNone PNone PNone PNone PNone
            [PStr ''star'', PStr ''flag-red'', PStr ''task-done'', PStr ''star''] [],
          mixed_markers, 0)
   \<and> topic_field (topic_dict (PStr ''t'') PNone PNone PNone PNone PNone
            [PStr ''star'', PStr ''flag-red'', PStr ''task-done'', PStr ''star''] []) ''markers''
     = PList (spec_markers mixed_markers)"
proof -
  have run: "convert_topic (\<lambda>n. 0) 0 mixed_markers =
     Inr (topic_dict (PStr ''t'') PNone PNone PNone PNone PNone
            [PStr ''star'', PStr ''flag-red'', PStr ''task-done'', PStr ''star''] [],
          mixed_markers, 0)"
    by (simp add: mixed_markers_def convert_topic.simps(1) py_get_def py_get_default_def
          convert_note_def convert_markers_def marker_step_def py_or_def inline_topics_def)
  show ?thesis using run markers_normalized [OF run] by simp
qed

subsection \<open>Children\<close>

lemma convert_attached_elementwise:
  "convert_attached u n cs = Inr (rs, cs', n') \<Longrightarrow>
   list_all2 (\<lambda>c r. \<exists>k c' k'. convert_topic u k c = Inr (r, c', k')) cs rs"
proof (induction cs arbitrary: n rs cs' n')
  case Nil
  then show ?case by simp
next
  case (Cons c cs)
  from Cons.prems obtain r c' n1 rs1 cs1 where
    c: "convert_topic u n c = Inr (r, c', n1)" and
    rest: "convert_attached u n1 cs = Inr (rs1, cs1, n')" and
    rs: "rs = r # rs1"
    by (auto split: sum.splits)
  from Cons.IH [OF rest] c show ?case unfolding rs by auto
qed

lemma both_forms_run:
  "convert_topic u 0 both_forms =
     Inr (topic_dict (PStr ''t'') PNone PNone PNone PNone PNone []
            [legacy_A, topic_dict (PStr ''c'') PNone PNone PNone PNone PNone [] []],
          both_forms_after, 0)"
  by (simp add: both_forms_def both_forms_after_def legacy_A_def attached_C_def
        convert_topic.simps py_get_def py_get_default_def convert_note_def convert_markers_def
        inline_topics_def topics_is_list_def topic_after_def)

lemma legacy_A_run:
  "convert_topic u 0 legacy_A =
     Inr (topic_dict (PStr ''a'') PNone PNone PNone PNone PNone [] [], legacy_A, 0)"
  by (simp add: legacy_A_def convert_topic.simps(1) py_get_def py_get_default_def convert_note_def
        convert_markers_def inline_topics_def)

lemma attached_C_run:
  "convert_topic u 0 attached_C =
     Inr (topic_dict (PStr ''c'') PNone PNone PNone PNone PNone [] [], attached_C, 0)"
  by (simp add: attached_C_def convert_topic.simps(1) py_get_def py_get_default_def
        convert_note_def convert_markers_def inline_topics_def)

text \<open>
  C2 asks that the children be the inline list followed by the attached list, each
  element normalized. At the topic with an inline list \<^verbatim>\<open>[A]\<close> and an attached list
  \<^verbatim>\<open>[C]\<close> the children are the raw \<^verbatim>\<open>A\<close>, as it stands in the source, followed by the
  normalized \<^verbatim>\<open>C\<close>: the order is the one asked for, but \<^verbatim>\<open>A\<close> is not the normalized \<^verbatim>\<open>A\<close>
  that \<^verbatim>\<open>_convert_topic\<close> returns for it.
\<close>

theorem inline_children_not_normalized:
  "topic_field (result_of (convert_topic u 0 both_forms)) ''topics''
     = PList [legacy_A, topic_dict (PStr ''c'') PNone PNone PNone PNone PNone [] []]
   \<and> result_of (convert_topic u 0 attached_C)
     = topic_dict (PStr ''c'') PNone PNone PNone PNone PNone [] []
   \<and> result_of (convert_topic u 0 legacy_A)
     = topic_dict (PStr ''a'') PNone PNone PNone PNone PNone [] []
   \<and> legacy_A \<noteq> result_of (convert_topic u 0 legacy_A)"
  by (simp add: both_forms_run legacy_A_run attached_C_run result_of_def topic_field_topic_dict)
     (simp add: legacy_A_def topic_dict_def)

text \<open>
  C9 asks that normalizing leaves the raw topic unmodified. At the topic with an inline
  list \<^verbatim>\<open>[A]\<close> and an attached list \<^verbatim>\<open>[C]\<close> the call appends the normalized \<^verbatim>\<open>C\<close> to the
  raw topic's own inline list: the raw topic after the call differs from the one passed
  in.
\<close>

theorem raw_topic_mutated:
  "convert_topic u 0 both_forms =
     Inr (topic_dict (PStr ''t'') PNone PNone PNone PNone PNone []
            [legacy_A, topic_dict (PStr ''c'') PNone PNone PNone PNone PNone [] []],
          both_forms_after, 0)
   \<and> both_forms_after \<noteq> both_forms"
  by (simp add: both_forms_run) (simp add: both_forms_def both_forms_after_def)

subsection \<open>Topic identifiers\<close>

lemmas load_eval = load_def load_try_def get_cached_data_def get_file_cache_key_def
  validate_xmind_file_def validate_checks_def endswith_def py_lower_def lower_char_def
  extract_xmind_file_def parse_content_json_def validate_content_structure_def
  load_additional_data_def convert_to_xmind_format_def set_cached_data_def cleanup_def
  new_loader_def initial_world_def sheet_after_def convert_topic.simps
  py_get_def py_get_default_def convert_note_def convert_markers_def inline_topics_def
  topics_is_list_def topic_after_def env0_def archive_of_def disk_with_def

lemma no_id_load:
  "load (disk_with (archive_of (Json no_id_content))) env0 (new_loader ''a.xmind'') initial_world =
     (Inr no_id_document,
      \<lparr>xmind_file = ''a.xmind'', temp_dir = Some ''/tmp/xmind_extract_0'',
        content_data = no_id_document\<rparr>,
      initial_world\<lparr>file_cache := [(''a.xmind_1.5_120'', \<lparr>data = no_id_document, timestamp = 1\<rparr>)]\<rparr>)"
  by (simp add: load_eval no_id_content_def no_id_document_def str_nat.simps)

text \<open>
  C1, as the spec states it, fails: a valid archive whose one topic has a title and no
  id loads successfully, and the topic of the returned document has the empty string as
  its id.
\<close>

theorem topic_ids_nonempty_counterexample:
  "fst (load (disk_with (archive_of (Json no_id_content))) env0 (new_loader ''a.xmind'')
          initial_world)
     = Inr (PList [sheet_dict (PStr ''s'') PNone
              (topic_dict (PStr '''') PNone (PStr ''T'') PNone PNone PNone [] [])])"
  by (simp add: no_id_load no_id_document_def)

text \<open>
  C1, amended. The id of a topic that \<^verbatim>\<open>_convert_topic\<close> returns is the raw topic's
  \<^verbatim>\<open>id\<close> value unchanged when the raw topic is a non-empty object, the empty string when
  such an object has no \<^verbatim>\<open>id\<close>, and a synthesized identifier of 26 hexadecimal digits
  only when the raw topic is absent or empty.
\<close>

theorem topic_id_rule:
  assumes "convert_topic u n t = Inr (r, t', n')"
  shows "topic_field r ''id'' =
           (if truthy t then py_get_default (case t of PDict d \<Rightarrow> d | _ \<Rightarrow> []) ''id'' (PStr '''')
            else PStr (topic_id u n))
         \<and> length (topic_id u n) = 26"
proof (cases "truthy t")
  case False
  with assms have "r = empty_topic (topic_id u n)"
    by (simp add: convert_topic_falsy)
  with False show ?thesis
    by (simp add: empty_topic_def topic_field_topic_dict length_topic_id)
next
  case True
  then obtain d where t: "t = PDict d" and d: "d \<noteq> []"
    using assms convert_topic_not_dict [of t u n] by (cases t) auto
  from convert_topic_dict [OF assms [unfolded t] d] True
  show ?thesis by (auto simp: t topic_field_topic_dict length_topic_id)
qed

theorem topic_id_rule_witness:
  "convert_topic (\<lambda>n. 0) 0 (PDict [(''title'', PStr ''T'')]) =
     Inr (topic_dict (PStr '''') PNone (PStr ''T'') PNone PNone PNone [] [],
          PDict [(''title'', PStr ''T'')], 0)
   \<and> topic_field (topic_dict (PStr '''') PNone (PStr ''T'') PNone PNone PNone [] []) ''id''
       = PStr ''''
   \<and> convert_topic (\<lambda>n. 0) 0 (PDict []) =
       Inr (empty_topic ''00000000000000000000000000'', PDict [], 1)
   \<and> topic_field (empty_topic ''00000000000000000000000000'') ''id''
       = PStr ''00000000000000000000000000''"
proof -
  have id0: "topic_id (\<lambda>n. 0) 0 = ''00000000000000000000000000''"
    by (simp add: topic_id_def str_uuid_def hex32_def hex_digit_def remove_char_def upt_rec)
  have a: "convert_topic (\<lambda>n. 0) 0 (PDict [(''title'', PStr ''T'')]) =
     Inr (topic_dict (PStr '''') PNone (PStr ''T'') PNone PNone PNone [] [],
          PDict [(''title'', PStr ''T'')], 0)"
    by (simp add: convert_topic.simps(1) py_get_def py_get_default_def convert_note_def
          convert_markers_def inline_topics_def)
  have b: "convert_topic (\<lambda>n. 0) 0 (PDict []) =
       Inr (empty_topic ''00000000000000000000000000'', PDict [], 1)"
    using convert_topic_falsy [of "PDict []" "\<lambda>n. 0" 0] by (simp add: id0)
  from topic_id_rule [OF a] topic_id_rule [OF b] a b show ?thesis
    by (simp add: py_get_default_def id0)
qed

subsection \<open>Sheets\<close>

text \<open>
  C7 asks that a sheet's topic be taken from \<^verbatim>\<open>topic\<close> or, when that is absent, from
  \<^verbatim>\<open>rootTopic\<close>, for either root shape. Under an object root a sheet that keeps its
  topic under \<^verbatim>\<open>rootTopic\<close> gets the synthesized empty topic instead; under an array
  root the same sheet gets its normalized \<^verbatim>\<open>rootTopic\<close>.
\<close>

theorem object_root_ignores_rootTopic:
  "convert_to_xmind_format u 0 (PDict [(''sheets'', PList [root_topic_sheet])]) =
     Inr (PList [sheet_dict (PStr ''s1'') (PStr ''Sheet'') (empty_topic (topic_id u 0))],
          PDict [(''sheets'', PList [root_topic_sheet])], 1)
   \<and> convert_to_xmind_format u 0 (PList [root_topic_sheet]) =
     Inr (PList [sheet_dict (PStr ''s1'') (PStr ''Sheet'')
                   (topic_dict (PStr ''r'') PNone (PStr ''Root'') PNone PNone PNone [] [])],
          PList [root_topic_sheet], 0)"
  by (simp add: convert_to_xmind_format_def root_topic_sheet_def convert_topic.simps(1)
        py_get_def py_get_default_def convert_note_def convert_markers_def inline_topics_def
        sheet_after_def)


section \<open>Properties of the cache\<close>

lemma py_min_by_in: "py_min_by f b xs \<in> set (b # xs)"
  by (induction xs arbitrary: b) (auto split: if_splits)

lemma py_min_by_le_start: "f (py_min_by f b xs) \<le> f b"
proof (induction xs arbitrary: b)
  case Nil
  show ?case by simp
next
  case (Cons y ys)
  from Cons.IH [of "if f y < f b then y else b"] show ?case
    by (simp split: if_splits)
qed

lemma py_min_by_le: "x \<in> set (b # xs) \<Longrightarrow> f (py_min_by f b xs) \<le> f x"
proof (induction xs arbitrary: b)
  case Nil
  then show ?case by simp
next
  case (Cons y ys)
  let ?b = "if f y < f b then y else b"
  have le_b: "f (py_min_by f ?b ys) \<le> f ?b" by (rule py_min_by_le_start)
  from Cons.prems consider "x = b" | "x = y" | "x \<in> set ys" by auto
  then show ?case
  proof cases
    case 1 with le_b show ?thesis by (simp split: if_splits)
  next
    case 2 with le_b show ?thesis by (simp split: if_splits)
  next
    case 3 with Cons.IH [of ?b] show ?thesis by simp
  qed
qed

lemma py_min_by_sorted: "sorted (map f (b # xs)) \<Longrightarrow> py_min_by f b xs = b"
  by (induction xs) auto

lemma update_fresh: "k \<notin> fst ` set al \<Longrightarrow> AList.update k v al = al @ [(k, v)]"
  by (induction al) auto

lemma entry_timestamp_distinct:
  "distinct (map fst c) \<Longrightarrow> (k, e) \<in> set c \<Longrightarrow> entry_timestamp c k = timestamp e"
  by (simp add: entry_timestamp_def)

lemma map_entry_timestamp:
  "distinct (map fst c) \<Longrightarrow> map (entry_timestamp c \<circ> fst) c = map (\<lambda>kv. timestamp (snd kv)) c"
  by (auto simp: entry_timestamp_distinct)

lemma newest_newest_append: "newest N (newest N xs @ ys) = newest N (xs @ ys)"
proof -
  have eq: "newest N zs = rev (take N (rev zs))" for zs :: "'a list"
    by (simp add: newest_def take_rev)
  show ?thesis by (simp add: eq)
qed

lemma newest_short: "length xs \<le> N \<Longrightarrow> newest N xs = xs"
  by (simp add: newest_def)

lemma set_newest: "set (newest N xs) \<subseteq> set xs"
  by (simp add: newest_def set_drop_subset)

lemma set_cached_data_ordered:
  assumes N: "0 < cache_max_size w" and len: "length (file_cache w) \<le> cache_max_size w"
    and dist: "distinct (map fst (file_cache w))"
    and fresh: "get_file_cache_key fs p \<notin> fst ` set (file_cache w)"
    and srt: "sorted (map (\<lambda>kv. timestamp (snd kv)) (file_cache w))"
  shows "set_cached_data fs now p d w =
     Inr (w\<lparr>file_cache := newest (cache_max_size w)
            (file_cache w @ [(get_file_cache_key fs p, \<lparr>data = d, timestamp = now\<rparr>)])\<rparr>)"
proof (cases "cache_max_size w \<le> length (file_cache w)")
  case False
  then show ?thesis using fresh
    by (simp add: set_cached_data_def Let_def update_fresh newest_def)
next
  case True
  with len have full: "length (file_cache w) = cache_max_size w" by simp
  with N obtain x xs where c: "file_cache w = x # xs" by (cases "file_cache w") auto
  have "sorted (map (entry_timestamp (file_cache w)) (map fst (file_cache w)))"
    unfolding map_map map_entry_timestamp [OF dist] by (rule srt)
  then have oldest: "py_min_by (entry_timestamp (file_cache w)) (fst x) (map fst xs) = fst x"
    using py_min_by_sorted [of "entry_timestamp (file_cache w)" "fst x" "map fst xs"] c by simp
  have del: "AList.delete (fst x) (file_cache w) = xs"
    using dist c by (auto simp: AList.delete_eq filter_id_conv rev_image_eqI)
  have fresh': "get_file_cache_key fs p \<notin> fst ` set xs" using fresh c by simp
  have "newest (cache_max_size w) (file_cache w @ [(get_file_cache_key fs p, \<lparr>data = d, timestamp = now\<rparr>)])
        = xs @ [(get_file_cache_key fs p, \<lparr>data = d, timestamp = now\<rparr>)]"
    using full c by (simp add: newest_def)
  then show ?thesis using True c oldest del fresh'
    by (simp add: set_cached_data_def Let_def update_fresh)
qed

lemma newest_append_rest:
  "newest N (c @ [x]) @ rest = drop (length (c @ [x]) - N) (c @ x # rest)"
  by (cases N) (simp_all add: newest_def)

lemma run_ops_ordered:
  assumes "0 < cache_max_size w" and "length (file_cache w) \<le> cache_max_size w"
    and "distinct (map fst (file_cache w @ inserted fs ops))"
    and "sorted (map (\<lambda>kv. timestamp (snd kv)) (file_cache w @ inserted fs ops))"
  shows "run_ops fs ops w =
     Inr (w\<lparr>file_cache := newest (cache_max_size w) (file_cache w @ inserted fs ops)\<rparr>)"
  using assms
proof (induction ops arbitrary: w)
  case Nil
  then show ?case by (simp add: newest_short)
next
  case (Cons op ops)
  show ?case
  proof (cases op)
    case (Lookup p)
    with Cons show ?thesis by simp
  next
    case (Insert p d now)
    let ?x = "(get_file_cache_key fs p, \<lparr>data = d, timestamp = now\<rparr>)"
    let ?N = "cache_max_size w"
    let ?w1 = "w\<lparr>file_cache := newest ?N (file_cache w @ [?x])\<rparr>"
    have ins: "inserted fs (op # ops) = ?x # inserted fs ops" using Insert by simp
    have step: "set_cached_data fs now p d w = Inr ?w1"
      using Cons.prems ins
      by (intro set_cached_data_ordered) (auto simp: sorted_append)
    have len1: "length (file_cache ?w1) \<le> cache_max_size ?w1"
      by (simp add: newest_def)
    have rest: "file_cache ?w1 @ inserted fs ops
        = drop (length (file_cache w @ [?x]) - ?N) (file_cache w @ inserted fs (op # ops))"
      using newest_append_rest [of ?N "file_cache w" ?x "inserted fs ops"] ins by simp
    have dist1: "distinct (map fst (file_cache ?w1 @ inserted fs ops))"
      unfolding rest drop_map [symmetric] using Cons.prems(3) by (rule distinct_drop)
    have srt1: "sorted (map (\<lambda>kv. timestamp (snd kv)) (file_cache ?w1 @ inserted fs ops))"
      unfolding rest drop_map [symmetric] using Cons.prems(4) by (rule sorted_wrt_drop)
    have "run_ops fs (op # ops) w = run_ops fs ops ?w1"
      using Insert step by simp
    also have "\<dots> = Inr (?w1\<lparr>file_cache :=
         newest (cache_max_size ?w1) (file_cache ?w1 @ inserted fs ops)\<rparr>)"
      using Cons.prems(1) len1 dist1 srt1 by (intro Cons.IH) simp_all
    also have "newest (cache_max_size ?w1) (file_cache ?w1 @ inserted fs ops)
        = newest ?N (file_cache w @ inserted fs (op # ops))"
      using newest_newest_append [of ?N "file_cache w @ [?x]" "inserted fs ops"] ins by simp
    finally show ?thesis by simp
  qed
qed

lemma set_cached_data_evicts_oldest:
  assumes N: "0 < cache_max_size w" and full: "cache_max_size w \<le> length (file_cache w)"
    and dist: "distinct (map fst (file_cache w))"
    and fresh: "get_file_cache_key fs p \<notin> fst ` set (file_cache w)"
  shows "\<exists>k e. (k, e) \<in> set (file_cache w)
           \<and> (\<forall>(k', e') \<in> set (file_cache w). timestamp e \<le> timestamp e')
           \<and> set_cached_data fs now p d w =
               Inr (w\<lparr>file_cache := AList.delete k (file_cache w)
                      @ [(get_file_cache_key fs p, \<lparr>data = d, timestamp = now\<rparr>)]\<rparr>)
           \<and> Suc (length (AList.delete k (file_cache w))) = length (file_cache w)"
proof -
  let ?c = "file_cache w"
  from N full obtain x xs where c: "?c = x # xs" by (cases ?c) auto
  define k where "k = py_min_by (entry_timestamp ?c) (fst x) (map fst xs)"
  have kin: "k \<in> set (map fst ?c)"
    unfolding k_def using py_min_by_in [of "entry_timestamp ?c" "fst x" "map fst xs"] c by simp
  then obtain e where e: "(k, e) \<in> set ?c" by auto
  have ts: "entry_timestamp ?c k' = timestamp e'" if "(k', e') \<in> set ?c" for k' e'
    using entry_timestamp_distinct [OF dist that] .
  have least: "timestamp e \<le> timestamp e'" if m: "(k', e') \<in> set ?c" for k' e'
  proof -
    have "k' \<in> set (fst x # map fst xs)" using m c by force
    from py_min_by_le [OF this, of "entry_timestamp ?c"] show ?thesis
      using ts [OF e] ts [OF m] by (simp add: k_def)
  qed
  have fresh': "get_file_cache_key fs p \<notin> fst ` set (AList.delete k ?c)"
    using fresh dom_delete_subset [of k ?c] by blast
  have run: "set_cached_data fs now p d w =
      Inr (w\<lparr>file_cache := AList.delete k ?c
                 @ [(get_file_cache_key fs p, \<lparr>data = d, timestamp = now\<rparr>)]\<rparr>)"
    using full c fresh' by (simp add: set_cached_data_def Let_def k_def update_fresh)
  have "map fst (AList.delete k ?c) = removeAll k (map fst ?c)" by (rule delete_keys)
  then have "length (AList.delete k ?c) = length (removeAll k (map fst ?c))"
    by (metis length_map)
  also have "\<dots> = length (map fst ?c) - 1"
    using dist kin by (simp add: distinct_remove1_removeAll [symmetric] length_remove1)
  finally have "Suc (length (AList.delete k ?c)) = length ?c"
    using c by simp
  with e least run show ?thesis by blast
qed

lemma set_cached_data_bounded:
  assumes N: "0 < cache_max_size w" and len: "length (file_cache w) \<le> cache_max_size w"
  shows "\<exists>w'. set_cached_data fs now p d w = Inr w' \<and> cache_max_size w' = cache_max_size w
           \<and> length (file_cache w') \<le> cache_max_size w"
proof (cases "cache_max_size w \<le> length (file_cache w)")
  case False
  have "length (AList.update k v al) \<le> Suc (length al)" for k v and al :: "(string \<times> cache_entry) list"
    by (induction al) auto
  from this [of "get_file_cache_key fs p" "\<lparr>data = d, timestamp = now\<rparr>" "file_cache w"] False
  have "length (AList.update (get_file_cache_key fs p) \<lparr>data = d, timestamp = now\<rparr>
           (file_cache w)) \<le> cache_max_size w" by linarith
  with False show ?thesis
    by (simp add: set_cached_data_def Let_def)
next
  case True
  with N obtain x xs where c: "file_cache w = x # xs" by (cases "file_cache w") auto
  define k where "k = py_min_by (entry_timestamp (file_cache w)) (fst x) (map fst xs)"
  have kin: "k \<in> fst ` set (file_cache w)"
    unfolding k_def using py_min_by_in [of "entry_timestamp (file_cache w)" "fst x" "map fst xs"] c
    by auto
  have short: "length (AList.delete k (file_cache w)) < length (file_cache w)"
  proof -
    from kin obtain e where "(k, e) \<in> set (file_cache w)" by auto
    then show ?thesis
      unfolding AList.delete_eq by (rule length_filter_less) simp
  qed
  have up: "length (AList.update k' v al) \<le> Suc (length al)" for k' v and al :: "(string \<times> cache_entry) list"
    by (induction al) auto
  have "length (AList.update (get_file_cache_key fs p) \<lparr>data = d, timestamp = now\<rparr>
           (AList.delete k (file_cache w))) \<le> length (file_cache w)"
    using up [of "get_file_cache_key fs p" "\<lparr>data = d, timestamp = now\<rparr>"
                 "AList.delete k (file_cache w)"] short by linarith
  then show ?thesis using True c len
    by (simp add: set_cached_data_def Let_def k_def)
qed

text \<open>
  C5. With a capacity \<open>N > 0\<close>: an insertion of a new fingerprint into a cache that
  holds \<open>N\<close> entries evicts exactly one entry, one whose timestamp is least, and appends
  the new entry; an insertion never leaves more than \<open>N\<close> entries; a lookup, and a
  \<^verbatim>\<open>load\<close> that hits the cache, leave the cache, timestamps included, as it is; and a run of insertions of distinct fingerprints
  into an empty cache, at clock readings that do not decrease, leaves exactly the \<open>N\<close>
  newest entries whatever lookups happen in between, so that after \<open>N + 1\<close> insertions
  the first inserted entry is the one that is absent.
\<close>

theorem cache_eviction:
  assumes N: "0 < cache_max_size w"
  shows "(cache_max_size w \<le> length (file_cache w) \<longrightarrow> distinct (map fst (file_cache w)) \<longrightarrow>
          get_file_cache_key fs p \<notin> fst ` set (file_cache w) \<longrightarrow>
          (\<exists>k e. (k, e) \<in> set (file_cache w)
             \<and> (\<forall>(k', e') \<in> set (file_cache w). timestamp e \<le> timestamp e')
             \<and> set_cached_data fs now p d w =
                 Inr (w\<lparr>file_cache := AList.delete k (file_cache w)
                        @ [(get_file_cache_key fs p, \<lparr>data = d, timestamp = now\<rparr>)]\<rparr>)
             \<and> Suc (length (AList.delete k (file_cache w))) = length (file_cache w)))
       \<and> (length (file_cache w) \<le> cache_max_size w \<longrightarrow>
          (\<exists>w'. set_cached_data fs now p d w = Inr w' \<and> cache_max_size w' = cache_max_size w
             \<and> length (file_cache w') \<le> cache_max_size w))
       \<and> cache_step fs (Lookup q) w = Inr w
       \<and> (get_cached_data fs w q \<noteq> None \<longrightarrow> snd (snd (load fs env (new_loader q) w)) = w)
       \<and> (file_cache w = [] \<longrightarrow> distinct (map fst (inserted fs ops)) \<longrightarrow>
          sorted (map (\<lambda>kv. timestamp (snd kv)) (inserted fs ops)) \<longrightarrow>
          run_ops fs ops w = Inr (w\<lparr>file_cache := newest (cache_max_size w) (inserted fs ops)\<rparr>)
          \<and> length (newest (cache_max_size w) (inserted fs ops)) \<le> cache_max_size w
          \<and> (length (inserted fs ops) = Suc (cache_max_size w) \<longrightarrow>
               newest (cache_max_size w) (inserted fs ops) = tl (inserted fs ops)
               \<and> map_of (tl (inserted fs ops)) (fst (hd (inserted fs ops))) = None))"
proof (intro conjI impI)
  assume "cache_max_size w \<le> length (file_cache w)" "distinct (map fst (file_cache w))"
    "get_file_cache_key fs p \<notin> fst ` set (file_cache w)"
  with N show "\<exists>k e. (k, e) \<in> set (file_cache w)
             \<and> (\<forall>(k', e') \<in> set (file_cache w). timestamp e \<le> timestamp e')
             \<and> set_cached_data fs now p d w =
                 Inr (w\<lparr>file_cache := AList.delete k (file_cache w)
                        @ [(get_file_cache_key fs p, \<lparr>data = d, timestamp = now\<rparr>)]\<rparr>)
             \<and> Suc (length (AList.delete k (file_cache w))) = length (file_cache w)"
    by (rule set_cached_data_evicts_oldest)
next
  assume "length (file_cache w) \<le> cache_max_size w"
  with N show "\<exists>w'. set_cached_data fs now p d w = Inr w' \<and> cache_max_size w' = cache_max_size w
             \<and> length (file_cache w') \<le> cache_max_size w"
    by (rule set_cached_data_bounded)
next
  show "cache_step fs (Lookup q) w = Inr w" by simp
next
  assume "get_cached_data fs w q \<noteq> None"
  then show "snd (snd (load fs env (new_loader q) w)) = w"
    by (auto simp: load_def new_loader_def)
next
  assume "file_cache w = []" "distinct (map fst (inserted fs ops))"
    "sorted (map (\<lambda>kv. timestamp (snd kv)) (inserted fs ops))"
  with N run_ops_ordered [of w fs ops]
  show "run_ops fs ops w = Inr (w\<lparr>file_cache := newest (cache_max_size w) (inserted fs ops)\<rparr>)"
    by simp
next
  show "length (newest (cache_max_size w) (inserted fs ops)) \<le> cache_max_size w"
    by (simp add: newest_def)
next
  assume "length (inserted fs ops) = Suc (cache_max_size w)"
  then show "newest (cache_max_size w) (inserted fs ops) = tl (inserted fs ops)"
    by (simp add: newest_def drop_Suc)
next
  assume "distinct (map fst (inserted fs ops))"
    and "length (inserted fs ops) = Suc (cache_max_size w)"
  then show "map_of (tl (inserted fs ops)) (fst (hd (inserted fs ops))) = None"
    by (cases "inserted fs ops") (auto simp: map_of_eq_None_iff)
qed

theorem cache_eviction_witness:
  "run_ops no_files three_inserts small_world =
     Inr (small_world\<lparr>file_cache := [(''b.xmind'', \<lparr>data = PList [], timestamp = 2\<rparr>),
                                      (''c.xmind'', \<lparr>data = PList [], timestamp = 2\<rparr>)]\<rparr>)
   \<and> map_of [(''b.xmind'', \<lparr>data = PList [], timestamp = 2\<rparr>),
              (''c.xmind'', \<lparr>data = PList [], timestamp = 2\<rparr>)] ''a.xmind'' = None
   \<and> (\<exists>k e. (k, e) \<in> set (file_cache full_world)
         \<and> (\<forall>(k', e') \<in> set (file_cache full_world). timestamp e \<le> timestamp e')
         \<and> set_cached_data no_files 9 ''c.xmind'' PNone full_world =
             Inr (full_world\<lparr>file_cache := AList.delete k (file_cache full_world)
                    @ [(''c.xmind'', \<lparr>data = PNone, timestamp = 9\<rparr>)]\<rparr>))"
proof -
  have ins: "inserted no_files three_inserts =
      [(''a.xmind'', \<lparr>data = PList [], timestamp = 1\<rparr>),
       (''b.xmind'', \<lparr>data = PList [], timestamp = 2\<rparr>),
       (''c.xmind'', \<lparr>data = PList [], timestamp = 2\<rparr>)]"
    by (simp add: three_inserts_def no_files_def get_file_cache_key_def)
  have small: "0 < cache_max_size small_world" "file_cache small_world = []"
    "cache_max_size small_world = 2"
    by (simp_all add: small_world_def)
  have full: "0 < cache_max_size full_world"
    "cache_max_size full_world \<le> length (file_cache full_world)"
    "distinct (map fst (file_cache full_world))"
    "get_file_cache_key no_files ''c.xmind'' \<notin> fst ` set (file_cache full_world)"
    by (simp_all add: full_world_def no_files_def get_file_cache_key_def)
  have key: "get_file_cache_key no_files ''c.xmind'' = ''c.xmind''"
    by (simp add: no_files_def get_file_cache_key_def)
  from cache_eviction [OF small(1), where fs = no_files and ops = three_inserts]
  have "run_ops no_files three_inserts small_world =
          Inr (small_world\<lparr>file_cache := newest 2 (inserted no_files three_inserts)\<rparr>)
        \<and> map_of (tl (inserted no_files three_inserts))
             (fst (hd (inserted no_files three_inserts))) = None"
    by (simp add: small ins)
  moreover from cache_eviction [OF full(1), where fs = no_files and p = "''c.xmind''" and now = 9
      and d = PNone] full(2-4)
  have "\<exists>k e. (k, e) \<in> set (file_cache full_world)
         \<and> (\<forall>(k', e') \<in> set (file_cache full_world). timestamp e \<le> timestamp e')
         \<and> set_cached_data no_files 9 ''c.xmind'' PNone full_world =
             Inr (full_world\<lparr>file_cache := AList.delete k (file_cache full_world)
                    @ [(''c.xmind'', \<lparr>data = PNone, timestamp = 9\<rparr>)]\<rparr>)"
    unfolding key by blast
  ultimately show ?thesis by (simp add: ins newest_def)
qed


section \<open>Properties of the loader\<close>

lemma validate_xmind_file_iff:
  "validate_xmind_file fs p \<longleftrightarrow>
     (\<exists>f z. fs p = Some f \<and> endswith (py_lower p) ''.xmind'' \<and> st_size f \<noteq> 0
        \<and> archive f = Some z \<and> testzip z = None \<and> ''content.json'' \<in> fst ` set (members z))"
  by (auto simp: validate_xmind_file_def validate_checks_def split: option.splits)

lemma cleanup_globals [simp]:
  "file_cache (cleanup env l w) = file_cache w"
  "cache_max_size (cleanup env l w) = cache_max_size w"
  by (simp_all add: cleanup_def split: option.splits)

lemma cleanup_dirs_subset: "temp_dirs (cleanup env l w) d \<noteq> None \<Longrightarrow> temp_dirs w d \<noteq> None"
  by (auto simp: cleanup_def split: option.splits if_splits)

lemma cleanup_removes:
  "rmtree_ok env \<Longrightarrow> temp_dir l = Some dir \<Longrightarrow> dir \<noteq> [] \<Longrightarrow>
   temp_dirs (cleanup env l w) = (temp_dirs w)(dir := None)"
  by (auto simp: cleanup_def fun_eq_iff)

lemma load_hit:
  "get_cached_data fs w (xmind_file l) = Some e \<Longrightarrow>
   load fs env l w = (Inr (data e), l\<lparr>content_data := data e\<rparr>, w)"
  by (simp add: load_def)

lemma load_miss:
  "get_cached_data fs w (xmind_file l) = None \<Longrightarrow> load_try fs env l w = (r1, l1, w1) \<Longrightarrow>
   load fs env l w =
     (case r1 of
        Inr doc \<Rightarrow> (Inr doc, l1, w1)
      | Inl (XmindLoadError t) \<Rightarrow> (Inl (XmindLoadError t), l1, cleanup env l1 w1)
      | Inl e \<Rightarrow> (Inl (XmindLoadError ''LOAD_FAILED''), l1, cleanup env l1 w1))"
  by (simp add: load_def split: sum.splits py_exception.splits)

lemma load_try_invalid:
  "\<not> validate_xmind_file fs (xmind_file l) \<Longrightarrow>
   load_try fs env l w = (Inl (XmindLoadError ''FILE_VALIDATION''), l, w)"
  by (simp add: load_try_def)

lemma extract_ok:
  "fs (xmind_file l) = Some f \<Longrightarrow> archive f = Some z \<Longrightarrow> mkdtemp env = Some dir \<Longrightarrow>
   extractall_ok env \<Longrightarrow>
   extract_xmind_file fs env l w =
     (Inr dir, l\<lparr>temp_dir := Some dir\<rparr>,
      w\<lparr>temp_dirs := (temp_dirs w)(dir \<mapsto> map_of (rev (members z)))\<rparr>)"
  by (simp add: extract_xmind_file_def)

lemma extract_frame:
  assumes "extract_xmind_file fs env l w = (x, l1, w1)"
  shows "file_cache w1 = file_cache w" "cache_max_size w1 = cache_max_size w"
    "xmind_file l1 = xmind_file l" "content_data l1 = content_data l"
  using assms
  by (auto simp: extract_xmind_file_def Let_def split: option.splits if_splits)

lemma extract_dirs:
  assumes "extract_xmind_file fs env l w = (x, l1, w1)" and "mkdtemp env = Some dir"
  shows "temp_dir l1 = Some dir" "temp_dirs w1 dir \<noteq> None"
    "d \<noteq> dir \<Longrightarrow> temp_dirs w1 d = temp_dirs w d"
  using assms
  by (auto simp: extract_xmind_file_def Let_def split: option.splits if_splits)

lemma extract_no_dir:
  "mkdtemp env = None \<Longrightarrow>
   extract_xmind_file fs env l w = (Inl (XmindLoadError ''EXTRACTION_FAILED''), l, w)"
  by (simp add: extract_xmind_file_def)

lemma set_cached_data_frame:
  "set_cached_data fs now p d w = Inr w' \<Longrightarrow>
   temp_dirs w' = temp_dirs w \<and> cache_max_size w' = cache_max_size w"
  by (auto simp: set_cached_data_def Let_def split: if_splits list.splits)

lemma set_cached_data_lookup:
  "set_cached_data fs now p d w = Inr w' \<Longrightarrow>
   map_of (file_cache w') (get_file_cache_key fs p) = Some \<lparr>data = d, timestamp = now\<rparr>"
  by (auto simp: set_cached_data_def Let_def update_conv' split: if_splits list.splits)


text \<open>The \<^verbatim>\<open>try\<close> block after a valid file and a created directory: the directory is
  there when the block raises and gone when it returns.\<close>

lemma load_try_dirs:
  assumes tr: "load_try fs env l w = (r, l1, w1)"
    and mk: "mkdtemp env = Some dir" and ne: "dir \<noteq> []" and rm: "rmtree_ok env"
    and v: "validate_xmind_file fs (xmind_file l)"
  shows "temp_dir l1 = Some dir"
    and "\<And>e. r = Inl e \<Longrightarrow> temp_dirs w1 dir \<noteq> None"
    and "\<And>d. d \<noteq> dir \<Longrightarrow> temp_dirs w1 d = temp_dirs w d"
    and "\<And>doc. r = Inr doc \<Longrightarrow> temp_dirs w1 dir = None"
proof -
  obtain x la wa where ex: "extract_xmind_file fs env l w = (x, la, wa)"
    by (cases "extract_xmind_file fs env l w") auto
  note ed = extract_dirs [OF ex mk]
  have *: "temp_dir l1 = Some dir
      \<and> (\<forall>e. r = Inl e \<longrightarrow> temp_dirs w1 dir \<noteq> None)
      \<and> (\<forall>d. d \<noteq> dir \<longrightarrow> temp_dirs w1 d = temp_dirs w d)
      \<and> (\<forall>doc. r = Inr doc \<longrightarrow> temp_dirs w1 dir = None)"
  proof (cases x)
    case (Inl e)
    with tr v ex ed show ?thesis by (auto simp: load_try_def)
  next
    case (Inr extract_dir)
    show ?thesis
    proof (cases "parse_content_json wa extract_dir")
      case (Inl e)
      with tr v ex ed Inr show ?thesis by (auto simp: load_try_def)
    next
      case parsed: (Inr parsed)
      show ?thesis
      proof (cases "convert_to_xmind_format (uuid4 env) 0 parsed")
        case (Inl e)
        with tr v ex ed Inr parsed show ?thesis by (auto simp: load_try_def)
      next
        case conv: (Inr res)
        obtain doc parsed' n where res: "res = (doc, parsed', n)" by (cases res) auto
        let ?l2 = "la\<lparr>content_data := doc\<rparr>"
        show ?thesis
        proof (cases "set_cached_data fs (time_now env) (xmind_file ?l2) doc wa")
          case (Inl e)
          with tr v ex ed Inr parsed conv res show ?thesis
            by (auto simp: load_try_def Let_def)
        next
          case w2: (Inr w2)
          from set_cached_data_frame [OF w2] have fr: "temp_dirs w2 = temp_dirs wa" by simp
          have l2: "temp_dir ?l2 = Some dir" using ed(1) by simp
          from tr v ex Inr parsed conv res w2
          have r: "r = Inr doc" "l1 = ?l2" "w1 = cleanup env ?l2 w2"
            by (auto simp: load_try_def Let_def)
          show ?thesis
            unfolding r using cleanup_removes [OF rm l2 ne, of w2] fr ed by auto
        qed
      qed
    qed
  qed
  from * show "temp_dir l1 = Some dir"
    and "\<And>e. r = Inl e \<Longrightarrow> temp_dirs w1 dir \<noteq> None"
    and "\<And>d. d \<noteq> dir \<Longrightarrow> temp_dirs w1 d = temp_dirs w d"
    and "\<And>doc. r = Inr doc \<Longrightarrow> temp_dirs w1 dir = None"
    by auto
qed

lemma load_try_success:
  assumes "load_try fs env l w = (Inr doc, l1, w1)"
  shows "\<exists>wa w2. set_cached_data fs (time_now env) (xmind_file l) doc wa = Inr w2
           \<and> w1 = cleanup env l1 w2 \<and> content_data l1 = doc \<and> xmind_file l1 = xmind_file l"
proof -
  obtain x la wa where ex: "extract_xmind_file fs env l w = (x, la, wa)"
    by (cases "extract_xmind_file fs env l w") auto
  note fr = extract_frame [OF ex]
  from assms ex fr(3) show ?thesis
    by (auto simp: load_try_def Let_def split: if_splits sum.splits) blast
qed


lemma empty_file_load:
  "load (disk_with empty_file) env0 (new_loader ''a.xmind'') initial_world =
     (Inl (XmindLoadError ''FILE_VALIDATION''), new_loader ''a.xmind'', initial_world)"
  by (simp add: load_eval empty_file_def)

lemma missing_file_load:
  "load no_files env0 (new_loader ''a.xmind'') initial_world =
     (Inl (XmindLoadError ''FILE_VALIDATION''), new_loader ''a.xmind'', initial_world)"
  by (simp add: load_eval no_files_def)

lemma empty_object_load:
  "load (disk_with (archive_of (Json (PDict [])))) env0 (new_loader ''a.xmind'') initial_world =
     (Inl (XmindLoadError ''LOAD_FAILED''),
      \<lparr>xmind_file = ''a.xmind'', temp_dir = Some ''/tmp/xmind_extract_0'', content_data = PNone\<rparr>,
      initial_world)"
  by (simp add: load_eval)

text \<open>
  C3, as the spec states it, fails: a path that does not exist and a file of size zero
  are reported with the same error tag.
\<close>

theorem distinct_error_kinds_counterexample:
  "fst (load no_files env0 (new_loader ''a.xmind'') initial_world)
     = Inl (XmindLoadError ''FILE_VALIDATION'')
   \<and> fst (load (disk_with empty_file) env0 (new_loader ''a.xmind'') initial_world)
     = Inl (XmindLoadError ''FILE_VALIDATION'')"
  by (simp add: missing_file_load empty_file_load)

text \<open>
  C3, amended. On a cache miss every validation failure (nonexistent path, wrong
  extension, zero size, unopenable archive, corrupt member, missing \<^verbatim>\<open>content.json\<close>) is
  reported with the one tag \<^verbatim>\<open>FILE_VALIDATION\<close>; a payload whose root is \<^verbatim>\<open>[]\<close> or an
  object without \<^verbatim>\<open>sheets\<close> is reported with the catch-all tag \<^verbatim>\<open>LOAD_FAILED\<close>, which is
  distinct from \<^verbatim>\<open>FILE_VALIDATION\<close>.
\<close>

theorem validation_failures_one_tag:
  assumes miss: "get_cached_data fs w (xmind_file l) = None"
  shows "((fs (xmind_file l) = None
            \<or> \<not> endswith (py_lower (xmind_file l)) ''.xmind''
            \<or> (\<exists>f. fs (xmind_file l) = Some f
                  \<and> (st_size f = 0 \<or> archive f = None
                       \<or> (\<exists>z. archive f = Some z
                             \<and> (testzip z \<noteq> None
                                  \<or> ''content.json'' \<notin> fst ` set (members z))))))
          \<longrightarrow> fst (load fs env l w) = Inl (XmindLoadError ''FILE_VALIDATION''))
       \<and> ((validate_xmind_file fs (xmind_file l) \<and> mkdtemp env = Some dir \<and> extractall_ok env
            \<and> (\<exists>f z. fs (xmind_file l) = Some f \<and> archive f = Some z
                  \<and> map_of (rev (members z)) ''content.json'' = Some (Json root))
            \<and> (root = PList [] \<or> (\<exists>d. root = PDict d \<and> map_of d ''sheets'' = None)))
          \<longrightarrow> fst (load fs env l w) = Inl (XmindLoadError ''LOAD_FAILED''))
       \<and> XmindLoadError ''LOAD_FAILED'' \<noteq> XmindLoadError ''FILE_VALIDATION''"
proof (intro conjI impI)
  assume "fs (xmind_file l) = None
            \<or> \<not> endswith (py_lower (xmind_file l)) ''.xmind''
            \<or> (\<exists>f. fs (xmind_file l) = Some f
                  \<and> (st_size f = 0 \<or> archive f = None
                       \<or> (\<exists>z. archive f = Some z
                             \<and> (testzip z \<noteq> None
                                  \<or> ''content.json'' \<notin> fst ` set (members z)))))"
  then have "\<not> validate_xmind_file fs (xmind_file l)"
    unfolding validate_xmind_file_iff by auto
  then have "load_try fs env l w = (Inl (XmindLoadError ''FILE_VALIDATION''), l, w)"
    by (rule load_try_invalid)
  from load_miss [OF miss this]
  show "fst (load fs env l w) = Inl (XmindLoadError ''FILE_VALIDATION'')"
    by simp
next
  assume a: "validate_xmind_file fs (xmind_file l) \<and> mkdtemp env = Some dir \<and> extractall_ok env
            \<and> (\<exists>f z. fs (xmind_file l) = Some f \<and> archive f = Some z
                  \<and> map_of (rev (members z)) ''content.json'' = Some (Json root))
            \<and> (root = PList [] \<or> (\<exists>d. root = PDict d \<and> map_of d ''sheets'' = None))"
  then obtain f z where f: "fs (xmind_file l) = Some f" "archive f = Some z"
    and payload: "map_of (rev (members z)) ''content.json'' = Some (Json root)" by blast
  let ?l1 = "l\<lparr>temp_dir := Some dir\<rparr>"
  let ?w1 = "w\<lparr>temp_dirs := (temp_dirs w)(dir \<mapsto> map_of (rev (members z)))\<rparr>"
  have ex: "extract_xmind_file fs env l w = (Inr dir, ?l1, ?w1)"
    using a f by (simp add: extract_ok)
  have "validate_content_structure root = Inl ValueError"
    using a by (auto simp: validate_content_structure_def)
  then have "parse_content_json ?w1 dir = Inl RuntimeError"
    using payload by (simp add: parse_content_json_def)
  with a ex have "load_try fs env l w = (Inl RuntimeError, ?l1, ?w1)"
    by (simp add: load_try_def)
  from load_miss [OF miss this]
  show "fst (load fs env l w) = Inl (XmindLoadError ''LOAD_FAILED'')" by simp
next
  show "XmindLoadError ''LOAD_FAILED'' \<noteq> XmindLoadError ''FILE_VALIDATION''" by simp
qed

theorem validation_failures_one_tag_witness:
  "get_cached_data (disk_with empty_file) initial_world ''a.xmind'' = None
   \<and> fst (load (disk_with empty_file) env0 (new_loader ''a.xmind'') initial_world)
       = Inl (XmindLoadError ''FILE_VALIDATION'')
   \<and> validate_xmind_file (disk_with (archive_of (Json (PDict [])))) ''a.xmind''
   \<and> fst (load (disk_with (archive_of (Json (PDict [])))) env0 (new_loader ''a.xmind'')
            initial_world)
       = Inl (XmindLoadError ''LOAD_FAILED'')"
proof -
  have miss: "get_cached_data fs initial_world (xmind_file (new_loader ''a.xmind'')) = None" for fs
    by (simp add: get_cached_data_def initial_world_def)
  have p: "xmind_file (new_loader ''a.xmind'') = ''a.xmind''" by (simp add: new_loader_def)
  have size0: "disk_with empty_file ''a.xmind'' = Some empty_file" "st_size empty_file = 0"
    by (simp_all add: disk_with_def empty_file_def)
  have valid: "validate_xmind_file (disk_with (archive_of (Json (PDict [])))) ''a.xmind''"
    by (simp add: validate_xmind_file_def validate_checks_def disk_with_def archive_of_def
          endswith_def py_lower_def lower_char_def)
  have payload: "disk_with (archive_of (Json (PDict []))) ''a.xmind''
        = Some (archive_of (Json (PDict [])))"
    "archive (archive_of (Json (PDict [])))
        = Some \<lparr>testzip = None, members = [(''content.json'', Json (PDict []))]\<rparr>"
    "map_of (rev (members \<lparr>testzip = None, members = [(''content.json'', Json (PDict []))]\<rparr>))
        ''content.json'' = Some (Json (PDict []))"
    by (simp_all add: disk_with_def archive_of_def)
  have env: "mkdtemp env0 = Some ''/tmp/xmind_extract_0''" "extractall_ok env0"
    by (simp_all add: env0_def)
  from validation_failures_one_tag [OF miss, of "disk_with empty_file" env0] size0
  have 1: "fst (load (disk_with empty_file) env0 (new_loader ''a.xmind'') initial_world)
       = Inl (XmindLoadError ''FILE_VALIDATION'')"
    unfolding p by blast
  from validation_failures_one_tag [OF miss, of "disk_with (archive_of (Json (PDict [])))" env0
      "''/tmp/xmind_extract_0''" "PDict []"] valid payload env
  have 2: "fst (load (disk_with (archive_of (Json (PDict [])))) env0 (new_loader ''a.xmind'')
            initial_world) = Inl (XmindLoadError ''LOAD_FAILED'')"
    unfolding p by auto
  from 1 2 valid miss [of "disk_with empty_file"] show ?thesis by (simp add: p)
qed

text \<open>
  C4. Whatever the outcome of \<^verbatim>\<open>load\<close> (a result or any exception), when \<^verbatim>\<open>rmtree\<close>
  does not fail the directory that \<^verbatim>\<open>mkdtemp\<close> created is gone when \<^verbatim>\<open>load\<close> returns
  or raises and no other directory has appeared; when the \<^verbatim>\<open>try\<close> block raises after
  creating the directory, the directory is still there at that point and it is the
  \<^verbatim>\<open>_cleanup\<close> call of the \<^verbatim>\<open>except\<close> clause that removes it.
\<close>

theorem temp_dir_released:
  assumes res: "load fs env l w = (r, l', w')"
    and mk: "mkdtemp env = Some dir" and ne: "dir \<noteq> []"
    and fresh: "temp_dirs w dir = None" and rm: "rmtree_ok env"
  shows "temp_dirs w' dir = None
       \<and> (\<forall>d. temp_dirs w' d \<noteq> None \<longrightarrow> temp_dirs w d \<noteq> None)
       \<and> (get_cached_data fs w (xmind_file l) = None \<longrightarrow> validate_xmind_file fs (xmind_file l) \<longrightarrow>
            (\<exists>r1 l1 w1. load_try fs env l w = (r1, l1, w1) \<and> temp_dir l1 = Some dir
               \<and> (case r1 of Inl e \<Rightarrow> temp_dirs w1 dir \<noteq> None \<and> w' = cleanup env l1 w1
                            | Inr doc \<Rightarrow> w' = w1)))"
proof (cases "get_cached_data fs w (xmind_file l)")
  case (Some e)
  from load_hit [OF Some, where env = env] res have "w' = w" by simp
  with fresh Some show ?thesis by simp
next
  case None
  obtain r1 l1 w1 where tr: "load_try fs env l w = (r1, l1, w1)"
    by (cases "load_try fs env l w") auto
  note ld = load_miss [OF None tr]
  show ?thesis
  proof (cases "validate_xmind_file fs (xmind_file l)")
    case False
    from load_try_invalid [OF False, of env w] tr ld res
    have "w' = cleanup env l w" by auto
    moreover have "temp_dirs (cleanup env l w) dir = None"
      using cleanup_dirs_subset [of env l w dir] fresh by blast
    ultimately show ?thesis
      using cleanup_dirs_subset [of env l w] False by blast
  next
    case True
    note dirs = load_try_dirs [OF tr mk ne rm True]
    have others: "temp_dirs w1 d = temp_dirs w d" if "d \<noteq> dir" for d
      using dirs(3) that by simp
    show ?thesis
    proof (cases r1)
      case (Inr doc)
      with ld res have w': "w' = w1" by simp
      have 1: "temp_dirs w' dir = None" using dirs(4) Inr w' by simp
      have 2: "temp_dirs w d \<noteq> None" if "temp_dirs w' d \<noteq> None" for d
        using that 1 others [of d] w' by (cases "d = dir") auto
      have 3: "\<exists>r1 l1 w1. load_try fs env l w = (r1, l1, w1) \<and> temp_dir l1 = Some dir
               \<and> (case r1 of Inl e \<Rightarrow> temp_dirs w1 dir \<noteq> None \<and> w' = cleanup env l1 w1
                            | Inr doc \<Rightarrow> w' = w1)"
        using tr dirs(1) Inr w' by auto
      from 1 2 3 show ?thesis by blast
    next
      case (Inl e)
      with ld res have w': "w' = cleanup env l1 w1"
        by (auto split: py_exception.splits)
      from cleanup_removes [OF rm dirs(1) ne, of w1]
      have rem: "temp_dirs w' = (temp_dirs w1)(dir := None)" by (simp add: w')
      have 1: "temp_dirs w' dir = None" using rem by simp
      have 2: "temp_dirs w d \<noteq> None" if "temp_dirs w' d \<noteq> None" for d
        using that rem others [of d] by (cases "d = dir") auto
      have 3: "\<exists>r1 l1 w1. load_try fs env l w = (r1, l1, w1) \<and> temp_dir l1 = Some dir
               \<and> (case r1 of Inl e \<Rightarrow> temp_dirs w1 dir \<noteq> None \<and> w' = cleanup env l1 w1
                            | Inr doc \<Rightarrow> w' = w1)"
        using tr dirs(1) dirs(2) [OF Inl] Inl w' by auto
      from 1 2 3 show ?thesis by blast
    qed
  qed
qed

theorem temp_dir_released_witness:
  "load (disk_with (archive_of (Json (PDict [])))) env0 (new_loader ''a.xmind'') initial_world =
     (Inl (XmindLoadError ''LOAD_FAILED''),
      \<lparr>xmind_file = ''a.xmind'', temp_dir = Some ''/tmp/xmind_extract_0'', content_data = PNone\<rparr>,
      initial_world)
   \<and> mkdtemp env0 = Some ''/tmp/xmind_extract_0'' \<and> rmtree_ok env0
   \<and> temp_dirs initial_world ''/tmp/xmind_extract_0'' = None
   \<and> (\<exists>r1 l1 w1. load_try (disk_with (archive_of (Json (PDict [])))) env0
           (new_loader ''a.xmind'') initial_world = (r1, l1, w1)
         \<and> temp_dir l1 = Some ''/tmp/xmind_extract_0''
         \<and> (case r1 of
               Inl e \<Rightarrow> temp_dirs w1 ''/tmp/xmind_extract_0'' \<noteq> None
                         \<and> initial_world = cleanup env0 l1 w1
             | Inr doc \<Rightarrow> initial_world = w1))"
proof -
  have mk: "mkdtemp env0 = Some ''/tmp/xmind_extract_0''" and rm: "rmtree_ok env0"
    by (simp_all add: env0_def)
  have fresh: "temp_dirs initial_world ''/tmp/xmind_extract_0'' = None"
    by (simp add: initial_world_def)
  have ne: "''/tmp/xmind_extract_0'' \<noteq> []" by simp
  have miss: "get_cached_data (disk_with (archive_of (Json (PDict [])))) initial_world
        (xmind_file (new_loader ''a.xmind'')) = None"
    by (simp add: get_cached_data_def initial_world_def)
  have valid: "validate_xmind_file (disk_with (archive_of (Json (PDict []))))
        (xmind_file (new_loader ''a.xmind''))"
    by (simp add: validate_xmind_file_def validate_checks_def disk_with_def archive_of_def
          endswith_def py_lower_def lower_char_def new_loader_def)
  from temp_dir_released [OF empty_object_load mk ne fresh rm] miss valid
  show ?thesis using empty_object_load mk rm fresh by blast
qed

text \<open>
  C6. After a successful \<^verbatim>\<open>load\<close>, a second \<^verbatim>\<open>load\<close> of the same path whose file has
  the same modification time and size returns the same document and leaves the cache
  and the temporary directories as they are, whatever the file now contains and whatever
  the surroundings would answer: it validates, extracts and parses nothing.
\<close>

theorem second_load_cache_hit:
  assumes first: "load fs env l w = (Inr doc, l1, w1)"
    and same: "map_option (\<lambda>f. (st_mtime f, st_size f)) (fs' (xmind_file l))
             = map_option (\<lambda>f. (st_mtime f, st_size f)) (fs (xmind_file l))"
    and path: "xmind_file l2 = xmind_file l"
  shows "load fs' env' l2 w1 = (Inr doc, l2\<lparr>content_data := doc\<rparr>, w1)"
proof -
  have key: "get_file_cache_key fs' (xmind_file l) = get_file_cache_key fs (xmind_file l)"
    using same
    by (cases "fs (xmind_file l)"; cases "fs' (xmind_file l)")
       (auto simp: get_file_cache_key_def)
  have "\<exists>e. map_of (file_cache w1) (get_file_cache_key fs (xmind_file l)) = Some e \<and> data e = doc"
  proof (cases "get_cached_data fs w (xmind_file l)")
    case (Some e)
    from load_hit [OF Some, where env = env] first have "w1 = w" "doc = data e" by simp_all
    with Some show ?thesis by (simp add: get_cached_data_def)
  next
    case None
    obtain r1 la wa where tr: "load_try fs env l w = (r1, la, wa)"
      by (cases "load_try fs env l w") auto
    from load_miss [OF None tr] first
    have "r1 = Inr doc" "w1 = wa"
      by (auto split: sum.splits py_exception.splits)
    with load_try_success [of fs env l w doc la wa] tr
    obtain wb w2 where "set_cached_data fs (time_now env) (xmind_file l) doc wb = Inr w2"
      and "w1 = cleanup env la w2" by auto
    with set_cached_data_lookup [of fs "time_now env" "xmind_file l" doc wb w2]
    show ?thesis by simp
  qed
  then obtain e where "get_cached_data fs' w1 (xmind_file l2) = Some e" "data e = doc"
    by (auto simp: get_cached_data_def key path)
  with load_hit [of fs' w1 l2 e env'] show ?thesis by simp
qed

theorem second_load_cache_hit_witness:
  "load (disk_with (archive_of (Json no_id_content))) env0 (new_loader ''a.xmind'') initial_world =
     (Inr no_id_document,
      \<lparr>xmind_file = ''a.xmind'', temp_dir = Some ''/tmp/xmind_extract_0'',
        content_data = no_id_document\<rparr>,
      initial_world\<lparr>file_cache := [(''a.xmind_1.5_120'', \<lparr>data = no_id_document, timestamp = 1\<rparr>)]\<rparr>)
   \<and> load (disk_with (archive_of NotJson)) (env0\<lparr>mkdtemp := None\<rparr>) (new_loader ''a.xmind'')
        (initial_world\<lparr>file_cache :=
            [(''a.xmind_1.5_120'', \<lparr>data = no_id_document, timestamp = 1\<rparr>)]\<rparr>) =
     (Inr no_id_document, (new_loader ''a.xmind'')\<lparr>content_data := no_id_document\<rparr>,
      initial_world\<lparr>file_cache := [(''a.xmind_1.5_120'', \<lparr>data = no_id_document, timestamp = 1\<rparr>)]\<rparr>)"
proof -
  have same: "map_option (\<lambda>f. (st_mtime f, st_size f))
        (disk_with (archive_of NotJson) (xmind_file (new_loader ''a.xmind'')))
      = map_option (\<lambda>f. (st_mtime f, st_size f))
        (disk_with (archive_of (Json no_id_content)) (xmind_file (new_loader ''a.xmind'')))"
    by (simp add: disk_with_def archive_of_def new_loader_def)
  from second_load_cache_hit [where fs' = "disk_with (archive_of NotJson)"
      and ?l2.0 = "new_loader ''a.xmind''" and env' = "env0\<lparr>mkdtemp := None\<rparr>",
      OF no_id_load same] no_id_load
  show ?thesis by simp
qed




end
